theory Spec2Isabelle
  imports Main "HOL-Library.Multiset"
begin

section \<open>The well-mixed tank template of MetaChem\<close>

text \<open>
  A shallow embedding of \<^verbatim>\<open>metachem/templates/WellMixedTank.py\<close>: the graph assembler
  \<^verbatim>\<open>WellMixedTank\<close>, the loader \<^verbatim>\<open>LoadSampler\<close>, the decision node
  \<^verbatim>\<open>TimingsDecision\<close>, the observers \<^verbatim>\<open>SampleObserver\<close> and \<^verbatim>\<open>ReturnObserver\<close>, and
  the export \<^verbatim>\<open>results_to_csv\<close>. Python integers are \<open>int\<close>, Python lists are lists,
  a dictionary with string keys is a map from \<open>string\<close>, and every exception the code
  can raise is a value of \<open>error\<close>, returned on the left of a sum.
\<close>

subsection \<open>Exceptions\<close>

text \<open>
  \<open>ValueError\<close> is raised by the assembler itself, and by \<^verbatim>\<open>open\<close> for a path with a
  NUL character. \<open>IndexError\<close> comes from indexing, \<open>TypeError\<close> from \<^verbatim>\<open>open(None)\<close> and
  from a call with an argument that the method does not take. \<open>FileNotFoundError\<close>,
  \<open>IsADirectoryError\<close>, \<open>NotADirectoryError\<close> and \<open>OSError\<close> (with the name of any other
  refusal of the operating system) come from \<^verbatim>\<open>open\<close>; \<open>UnicodeDecodeError\<close>, in Python
  a subclass of \<^verbatim>\<open>ValueError\<close>, and \<open>CsvError\<close> (\<^verbatim>\<open>csv.Error\<close>) come from reading the
  opened file. \<open>InsufficientPopulationError\<close> is the error of the generic samplers.
  \<open>GraphShapeError\<close> and \<open>ConfigurationError\<close> are classes that the written specification
  names; no statement of the source file constructs either.
\<close>

datatype error =
    ValueError
  | IndexError
  | TypeError
  | UnicodeDecodeError
  | CsvError
  | FileNotFoundError
  | IsADirectoryError
  | NotADirectoryError
  | OSError string
  | InsufficientPopulationError
  | GraphShapeError
  | ConfigurationError

subsection \<open>Python values\<close>

text \<open>
  A spike as the post-reaction observer reads it: \<^verbatim>\<open>spikeNumber\<close> and \<^verbatim>\<open>intensity\<close>.
  The class lives in \<^verbatim>\<open>metachem.RBNworld\<close>; the intensity is taken to be an integer.
\<close>

datatype spike = Spike (spikeNumber: int) (intensity: int)

text \<open>
  Modelled from the spec: the elements of \<^verbatim>\<open>part.open_spikes\<close> and \<^verbatim>\<open>part.bonds\<close>
  are built in \<^verbatim>\<open>metachem.RBNworld\<close>, which is not among the sources. The observer
  indexes each element at 0 and reads a spike there, so an element is a sequence with
  a spike in front: its element 0 and the rest.
\<close>

datatype spike_entry = Entry (entry0: spike) (entry_rest: "spike list")

text \<open>Scalars: what an identity or a plain tank item can be.\<close>

datatype scalar = SInt int | SStr string

text \<open>
  An \<^verbatim>\<open>RBNParticle\<close>: the attributes the observer reads. Of \<^verbatim>\<open>atoms\<close> only the
  length is read.
\<close>

record rbn_particle =
  rbn_id :: scalar
  atoms :: "scalar list"
  open_spikes :: "spike_entry list"
  bonds :: "spike_entry list"

text \<open>
  Modelled from the spec: the classes \<^verbatim>\<open>Particle\<close> and \<^verbatim>\<open>RBNParticle\<close> are imported
  from modules that are not among the sources. A particle has a stable identity, and
  some particles expose bond/spike structure: \<open>Particle i\<close> is a \<^verbatim>\<open>Particle\<close> with
  identity \<open>i\<close> that is not an \<^verbatim>\<open>RBNParticle\<close>, and an \<^verbatim>\<open>RBNParticle\<close> is a
  \<^verbatim>\<open>Particle\<close> too. The other constructors are the plain values that travel through
  the containers and the ledger.
\<close>

datatype pyval =
    PyInt int
  | PyStr string
  | PyTuple "pyval list"
  | PyList "pyval list"
  | Particle scalar
  | RBNParticle rbn_particle

fun of_scalar :: "scalar \<Rightarrow> pyval" where
  "of_scalar (SInt n) = PyInt n"
| "of_scalar (SStr s) = PyStr s"

fun isinstance_Particle :: "pyval \<Rightarrow> bool" where
  "isinstance_Particle (Particle i) = True"
| "isinstance_Particle (RBNParticle p) = True"
| "isinstance_Particle v = False"

fun isinstance_RBNParticle :: "pyval \<Rightarrow> bool" where
  "isinstance_RBNParticle (RBNParticle p) = True"
| "isinstance_RBNParticle v = False"

text \<open>\<^verbatim>\<open>x.id\<close> of a value for which \<^verbatim>\<open>isinstance(x, Particle)\<close> held.\<close>

fun particle_id :: "pyval \<Rightarrow> pyval option" where
  "particle_id (Particle i) = Some (of_scalar i)"
| "particle_id (RBNParticle p) = Some (of_scalar (rbn_id p))"
| "particle_id v = None"

text \<open>The sample as a list of RBN particles, when every element is one.\<close>

fun as_RBNParticle :: "pyval \<Rightarrow> rbn_particle option" where
  "as_RBNParticle (RBNParticle p) = Some p"
| "as_RBNParticle v = None"

fun rbn_parts :: "pyval list \<Rightarrow> rbn_particle list option" where
  "rbn_parts [] = Some []"
| "rbn_parts (x # xs) =
     (case as_RBNParticle x of
        None \<Rightarrow> None
      | Some p \<Rightarrow> (case rbn_parts xs of None \<Rightarrow> None | Some ps \<Rightarrow> Some (p # ps)))"

text \<open>\<^verbatim>\<open>xs[0]\<close>: Python raises \<^verbatim>\<open>IndexError\<close> on an empty list.\<close>

fun index0 :: "'a list \<Rightarrow> error + 'a" where
  "index0 [] = Inl IndexError"
| "index0 (x # xs) = Inr x"

subsection \<open>Decimal rendering, as \<^verbatim>\<open>str\<close> and f-strings do\<close>

fun str_nat :: "nat \<Rightarrow> string" where
  "str_nat n =
     (if n < 10 then [''0123456789'' ! n]
      else str_nat (n div 10) @ [''0123456789'' ! (n mod 10)])"

definition str_int :: "int \<Rightarrow> string" where
  "str_int i = (if i < 0 then CHR ''-'' # str_nat (nat (- i)) else str_nat (nat i))"

fun format_scalar :: "scalar \<Rightarrow> string" where
  "format_scalar (SInt n) = str_int n"
| "format_scalar (SStr s) = s"

subsection \<open>The decision node \<^verbatim>\<open>TimingsDecision\<close>\<close>

record TimingsDecision =
  time_thresh :: int
  gen_thresh :: int
  sample_size :: int
  time :: int
  gen :: int
  tank_size :: int

text \<open>The constructor: the three thresholds, and the three read values at 0.\<close>

definition TimingsDecision_init :: "int \<Rightarrow> int \<Rightarrow> int \<Rightarrow> TimingsDecision" where
  "TimingsDecision_init time_thresh' gen_thresh' sample_size' =
     \<lparr>time_thresh = time_thresh', gen_thresh = gen_thresh', sample_size = sample_size',
      time = 0, gen = 0, tank_size = 0\<rparr>"

text \<open>
  \<^verbatim>\<open>read\<close>: the arguments are what \<^verbatim>\<open>read()\<close> of the three read containers returns,
  in the order of \<^verbatim>\<open>readcontainers\<close>.
\<close>

definition TimingsDecision_read ::
  "int list \<Rightarrow> int list \<Rightarrow> 'a list \<Rightarrow> TimingsDecision \<Rightarrow> error + TimingsDecision" where
  "TimingsDecision_read rc0 rc1 rc2 d =
     (case index0 rc0 of
        Inl e \<Rightarrow> Inl e
      | Inr g \<Rightarrow>
          (case index0 rc1 of
             Inl e \<Rightarrow> Inl e
           | Inr t \<Rightarrow> Inr (d\<lparr>time := t, gen := g, tank_size := int (length rc2)\<rparr>)))"

definition TimingsDecision_process :: "TimingsDecision \<Rightarrow> int" where
  "TimingsDecision_process d =
     (if gen d < gen_thresh d \<and> tank_size d \<ge> sample_size d then 0
      else if time d < time_thresh d then 1
      else 2)"

text \<open>
  The decision node of the assembled graph, line 84 of the source: the read containers
  are \<^verbatim>\<open>[VGen, VTime, TTank]\<close>, the time threshold is \<^verbatim>\<open>generations\<close> and the
  generation threshold is \<^verbatim>\<open>reactions\<close>.
\<close>

definition dgen_node :: "int \<Rightarrow> int \<Rightarrow> int \<Rightarrow> TimingsDecision" where
  "dgen_node generations reactions sample_size' =
     TimingsDecision_init generations reactions sample_size'"

text \<open>One visit of the decision node: \<^verbatim>\<open>read\<close>, then \<^verbatim>\<open>process\<close>.\<close>

definition dgen_visit ::
  "int \<Rightarrow> int \<Rightarrow> int \<Rightarrow> int list \<Rightarrow> int list \<Rightarrow> 'a list \<Rightarrow> error + int" where
  "dgen_visit generations reactions sample_size' vgen vtime ttank =
     (case TimingsDecision_read vgen vtime ttank (dgen_node generations reactions sample_size') of
        Inl e \<Rightarrow> Inl e
      | Inr d \<Rightarrow> Inr (TimingsDecision_process d))"

subsection \<open>The pre-reaction observer \<^verbatim>\<open>SampleObserver\<close>\<close>

record SampleObserver =
  so_sample :: "pyval list"
  so_dict :: "string \<rightharpoonup> pyval"

definition SampleObserver_read :: "pyval list \<Rightarrow> SampleObserver \<Rightarrow> SampleObserver" where
  "SampleObserver_read readcontainers_read so = so\<lparr>so_sample := readcontainers_read\<rparr>"

text \<open>The identity the observer records for an item: its id, or the string n/a.\<close>

definition recorded_id :: "pyval \<Rightarrow> pyval" where
  "recorded_id x =
     (if isinstance_Particle x
      then (case particle_id x of Some i \<Rightarrow> i | None \<Rightarrow> PyStr ''n/a'')
      else PyStr ''n/a'')"

definition SampleObserver_process :: "SampleObserver \<Rightarrow> error + SampleObserver" where
  "SampleObserver_process so =
     (case so_sample so of
        [] \<Rightarrow> Inl IndexError
      | s0 # rest \<Rightarrow>
          (let id1 = recorded_id s0;
               (id2, obj2) =
                 (case rest of
                    s1 # rest' \<Rightarrow> (recorded_id s1, s1)
                  | [] \<Rightarrow> (PyStr ''None'', PyStr ''None''));
               obj1 = s0
           in Inr (so\<lparr>so_dict :=
                 [''id1'' \<mapsto> id1, ''id2'' \<mapsto> id2, ''obj1'' \<mapsto> obj1, ''obj2'' \<mapsto> obj2]\<rparr>)))"

subsection \<open>The post-reaction observer \<^verbatim>\<open>ReturnObserver\<close>\<close>

record ReturnObserver =
  ro_sample :: "pyval list"
  ro_dict :: "string \<rightharpoonup> pyval"

definition ReturnObserver_read ::
  "pyval list \<Rightarrow> (string \<rightharpoonup> pyval) \<Rightarrow> ReturnObserver \<Rightarrow> ReturnObserver" where
  "ReturnObserver_read readcontainers_read containersin_read ro =
     ro\<lparr>ro_sample := readcontainers_read, ro_dict := containersin_read\<rparr>"

text \<open>The body of the loop over the products, one product at a time.\<close>

definition spike_pairs :: "spike_entry list \<Rightarrow> (int \<times> int) list" where
  "spike_pairs es = map (\<lambda>e. (spikeNumber (entry0 e), intensity (entry0 e))) es"

definition total_intensity :: "rbn_particle \<Rightarrow> int" where
  "total_intensity part =
     sum_list (map snd (spike_pairs (open_spikes part) @ spike_pairs (bonds part)))"

definition part_info :: "rbn_particle \<Rightarrow> string" where
  "part_info part =
     ''RBNParticle(ID='' @ format_scalar (rbn_id part) @
     '', Atoms='' @ str_nat (length (atoms part)) @
     '', Open='' @ str_nat (length (open_spikes part)) @
     '', Bonded='' @ str_nat (length (bonds part)) @ '')''"

definition py_pairs :: "(int \<times> int) list \<Rightarrow> pyval" where
  "py_pairs ps = PyList (map (\<lambda>(n, i). PyTuple [PyInt n, PyInt i]) ps)"

text \<open>
  \<^verbatim>\<open>process\<close>: the argument \<open>vgen_read\<close> is what \<^verbatim>\<open>self.VGen.read()\<close> returns at this
  visit. \<^verbatim>\<open>["N/A"] * len(self.sample)\<close> is \<open>replicate\<close>.
\<close>

definition ReturnObserver_process :: "int list \<Rightarrow> ReturnObserver \<Rightarrow> error + ReturnObserver" where
  "ReturnObserver_process vgen_read ro =
     (case index0 vgen_read of
        Inl e \<Rightarrow> Inl e
      | Inr current_generation \<Rightarrow>
          (case rbn_parts (ro_sample ro) of
             Some parts \<Rightarrow>
               Inr (ro\<lparr>ro_dict := (ro_dict ro)
                 (''Prods'' \<mapsto> PyList (map (\<lambda>part. PyStr (part_info part)) parts),
                  ''Open_Spikes'' \<mapsto> PyList (map (\<lambda>part. py_pairs (spike_pairs (open_spikes part))) parts),
                  ''Bonded_Spikes'' \<mapsto> PyList (map (\<lambda>part. py_pairs (spike_pairs (bonds part))) parts),
                  ''Intensity'' \<mapsto> PyList (map (\<lambda>part. PyInt (total_intensity part)) parts),
                  ''Generation'' \<mapsto> PyInt current_generation)\<rparr>)
           | None \<Rightarrow>
               Inr (ro\<lparr>ro_dict := (ro_dict ro)
                 (''Prods'' \<mapsto> PyList (replicate (length (ro_sample ro)) (PyStr ''N/A'')),
                  ''Open_Spikes'' \<mapsto> PyList (replicate (length (ro_sample ro)) (PyStr ''N/A'')),
                  ''Bonded_Spikes'' \<mapsto> PyList (replicate (length (ro_sample ro)) (PyStr ''N/A'')),
                  ''Intensity'' \<mapsto> PyList (replicate (length (ro_sample ro)) (PyStr ''N/A'')),
                  ''Generation'' \<mapsto> PyInt current_generation)\<rparr>)))"

subsection \<open>Containers\<close>

text \<open>
  Modelled from the spec: the container classes of \<^verbatim>\<open>metachem.CoreContainer\<close>
  (\<^verbatim>\<open>ListTank\<close>, \<^verbatim>\<open>ListSample\<close>, \<^verbatim>\<open>StackEnvironment\<close>, \<^verbatim>\<open>DictionaryEnvironment\<close>,
  \<^verbatim>\<open>DataFrameEnvironment\<close>) are not among the sources. A tank and a sample hold a
  list of particles, \<^verbatim>\<open>add\<close> of a batch appends it. A counter is an integer register
  whose \<^verbatim>\<open>read()\<close> has the current value at index 0. The keyed store maps string keys
  to values. The reaction ledger is a table with a fixed list of columns to which
  \<^verbatim>\<open>add\<close> appends one row.
\<close>

type_synonym ListTank = "pyval list"

definition ListTank_add :: "ListTank \<Rightarrow> pyval list \<Rightarrow> ListTank" where
  "ListTank_add t batch = t @ batch"

type_synonym StackEnvironment = "int list"

definition StackEnvironment_add :: "StackEnvironment \<Rightarrow> int \<Rightarrow> StackEnvironment" where
  "StackEnvironment_add st v = v # st"

type_synonym DictionaryEnvironment = "string \<rightharpoonup> pyval"

definition DictionaryEnvironment_add ::
  "DictionaryEnvironment \<Rightarrow> (string \<rightharpoonup> pyval) \<Rightarrow> DictionaryEnvironment" where
  "DictionaryEnvironment_add d new = d ++ new"

definition DictionaryEnvironment_remove ::
  "DictionaryEnvironment \<Rightarrow> string list \<Rightarrow> DictionaryEnvironment" where
  "DictionaryEnvironment_remove d ks = (\<lambda>k. if k \<in> set ks then None else d k)"

record DataFrameEnvironment =
  columns :: "string list"
  rows :: "(string \<rightharpoonup> pyval) list"

definition DataFrameEnvironment_init :: "string list \<Rightarrow> DataFrameEnvironment" where
  "DataFrameEnvironment_init cols = \<lparr>columns = cols, rows = []\<rparr>"

definition DataFrameEnvironment_add ::
  "DataFrameEnvironment \<Rightarrow> (string \<rightharpoonup> pyval) \<Rightarrow> DataFrameEnvironment" where
  "DataFrameEnvironment_add df row = df\<lparr>rows := rows df @ [row]\<rparr>"

text \<open>The \<^verbatim>\<open>push\<close> phases of the two observers.\<close>

definition SampleObserver_push :: "DictionaryEnvironment \<Rightarrow> SampleObserver \<Rightarrow> DictionaryEnvironment" where
  "SampleObserver_push containersout so = DictionaryEnvironment_add containersout (so_dict so)"

definition SampleObserver_pull :: "DictionaryEnvironment \<Rightarrow> DictionaryEnvironment" where
  "SampleObserver_pull containersout =
     DictionaryEnvironment_remove containersout [''id1'', ''id2'', ''obj1'', ''obj2'']"

definition ReturnObserver_push :: "DataFrameEnvironment \<Rightarrow> ReturnObserver \<Rightarrow> DataFrameEnvironment" where
  "ReturnObserver_push containersout ro = DataFrameEnvironment_add containersout (ro_dict ro)"

subsection \<open>The file system\<close>

text \<open>
  What \<^verbatim>\<open>open\<close> and \<^verbatim>\<open>os.path.exists\<close> see: the paths of the directories, the paths
  of the regular files with their content, and the paths that the operating system
  refuses to open for a reason of its own (permissions, limits), with the name of the
  error. A path is relative to the working directory and in normal form: it has no
  component \<^verbatim>\<open>.\<close> or \<^verbatim>\<open>..\<close>, no repeated or trailing slash, and runs through no
  symbolic link. The content of a file is its rows of cells, which is what
  \<^verbatim>\<open>csv.reader\<close> yields and what \<^verbatim>\<open>to_csv\<close> writes; or bytes that do not decode as
  text; or text that \<^verbatim>\<open>csv.reader\<close> rejects.
\<close>

datatype file_content = Rows "string list list" | Undecodable | Unparsable

record filesystem =
  dirs :: "string list"
  files :: "(string \<times> file_content) list"
  refused :: "(string \<times> string) list"

definition path_exists :: "filesystem \<Rightarrow> string \<Rightarrow> bool" where
  "path_exists fs p = (p \<in> set (dirs fs) \<or> p \<in> set (map fst (files fs)))"

text \<open>
  The directories that a path runs through: its non-empty prefixes that end just
  before a slash, the shortest first.
\<close>

fun prefixes_before_slash :: "string \<Rightarrow> string \<Rightarrow> string list" where
  "prefixes_before_slash acc [] = []"
| "prefixes_before_slash acc (c # cs) =
     (if c = CHR ''/'' \<and> acc \<noteq> [] then acc # prefixes_before_slash (acc @ [c]) cs
      else prefixes_before_slash (acc @ [c]) cs)"

definition ancestors :: "string \<Rightarrow> string list" where
  "ancestors p = prefixes_before_slash [] p"

text \<open>
  The resolution of a path walks through its ancestors: the first one that is not a
  directory ends it, with \<^verbatim>\<open>NotADirectoryError\<close> when it is a regular file and with
  \<^verbatim>\<open>FileNotFoundError\<close> when it does not exist.
\<close>

fun walk :: "filesystem \<Rightarrow> string list \<Rightarrow> error option" where
  "walk fs [] = None"
| "walk fs (a # as) =
     (if a \<in> set (dirs fs) then walk fs as
      else if a \<in> set (map fst (files fs)) then Some NotADirectoryError
      else Some FileNotFoundError)"

text \<open>
  The error, if any, with which \<^verbatim>\<open>open\<close> refuses a path in either mode: a NUL
  character in the path (\<^verbatim>\<open>ValueError\<close>, raised before the operating system is asked),
  the empty path, a refusal of the operating system, an ancestor that is not a
  directory, or a path that names a directory.
\<close>

definition open_error :: "filesystem \<Rightarrow> string \<Rightarrow> error option" where
  "open_error fs p =
     (if CHR 0x00 \<in> set p then Some ValueError
      else if p = [] then Some FileNotFoundError
      else (case map_of (refused fs) p of
              Some name \<Rightarrow> Some (OSError name)
            | None \<Rightarrow>
                (case walk fs (ancestors p) of
                   Some err \<Rightarrow> Some err
                 | None \<Rightarrow>
                     if p \<in> set (dirs fs) then Some IsADirectoryError else None)))"

text \<open>
  \<^verbatim>\<open>open(p, "r")\<close> followed by reading all rows through \<^verbatim>\<open>csv.reader\<close>.
  \<^verbatim>\<open>open(None)\<close> raises \<^verbatim>\<open>TypeError\<close>; a path that names nothing raises
  \<^verbatim>\<open>FileNotFoundError\<close>; the errors of decoding and of parsing appear when the rows
  are read.
\<close>

definition open_read :: "filesystem \<Rightarrow> string option \<Rightarrow> error + string list list" where
  "open_read fs p =
     (case p of
        None \<Rightarrow> Inl TypeError
      | Some q \<Rightarrow>
          (case open_error fs q of
             Some err \<Rightarrow> Inl err
           | None \<Rightarrow>
               (case map_of (files fs) q of
                  None \<Rightarrow> Inl FileNotFoundError
                | Some Undecodable \<Rightarrow> Inl UnicodeDecodeError
                | Some Unparsable \<Rightarrow> Inl CsvError
                | Some (Rows content) \<Rightarrow> Inr content)))"

text \<open>
  \<^verbatim>\<open>open(p, "w")\<close> followed by writing the rows \<open>content\<close>: the file is created, and
  a file that is already at \<open>p\<close> is replaced.
\<close>

definition open_write :: "filesystem \<Rightarrow> string \<Rightarrow> string list list \<Rightarrow> error + filesystem" where
  "open_write fs p content =
     (case open_error fs p of
        Some err \<Rightarrow> Inl err
      | None \<Rightarrow> Inr (fs\<lparr>files := (p, Rows content) # filter (\<lambda>f. fst f \<noteq> p) (files fs)\<rparr>))"

subsection \<open>The loader \<^verbatim>\<open>LoadSampler\<close>\<close>

text \<open>
  A particle factory is what \<^verbatim>\<open>createParticles\<close> does with the number requested.
  The load type is a string, a factory, or \<^verbatim>\<open>None\<close> (the default of the assembler).
\<close>

type_synonym ParticleFactory = "int \<Rightarrow> pyval list"

datatype load_type = LoadNone | LoadStr string | LoadFactory ParticleFactory

text \<open>\<^verbatim>\<open>self.load_type == "..."\<close>: only a string can equal a string.\<close>

fun load_type_eq :: "load_type \<Rightarrow> string \<Rightarrow> bool" where
  "load_type_eq (LoadStr s) t = (s = t)"
| "load_type_eq lt t = False"

record LoadSampler =
  ls_load_file :: "string option"
  ls_load_type :: load_type
  ls_tank_size :: int
  ls_sample :: "pyval list"

text \<open>
  The constructor. The base class \<^verbatim>\<open>CoreNode.Sampler\<close> is not among the sources; the
  sample is empty until \<^verbatim>\<open>read\<close> or \<^verbatim>\<open>pull\<close> fills it.
\<close>

definition LoadSampler_init :: "int \<Rightarrow> load_type \<Rightarrow> string option \<Rightarrow> LoadSampler" where
  "LoadSampler_init tank_size' load_type' load_file' =
     \<lparr>ls_load_file = load_file', ls_load_type = load_type', ls_tank_size = tank_size',
      ls_sample = []\<rparr>"

definition LoadSampler_read :: "filesystem \<Rightarrow> LoadSampler \<Rightarrow> error + LoadSampler" where
  "LoadSampler_read fs ls =
     (if load_type_eq (ls_load_type ls) ''csv'' then
        (case open_read fs (ls_load_file ls) of
           Inl e \<Rightarrow> Inl e
         | Inr content \<Rightarrow>
             (case index0 content of
                Inl e \<Rightarrow> Inl e
              | Inr row \<Rightarrow> Inr (ls\<lparr>ls_sample := map PyStr row\<rparr>)))
      else Inr ls)"

text \<open>
  The random draws are a parameter: \<open>rnd k\<close> is the raw number behind the \<open>k\<close>-th call of
  \<^verbatim>\<open>random.choice\<close> or \<^verbatim>\<open>random.randint\<close>. \<open>watson\<close> is
  \<^verbatim>\<open>WatsonRBNParticleFactory\<close> of \<^verbatim>\<open>metachem.RBNworld\<close>.
\<close>

definition ascii_uppercase :: string where
  "ascii_uppercase = ''ABCDEFGHIJKLMNOPQRSTUVWXYZ''"

definition random_choice :: "nat \<Rightarrow> string \<Rightarrow> pyval" where
  "random_choice r s = PyStr [s ! (r mod length s)]"

definition random_randint :: "nat \<Rightarrow> int \<Rightarrow> int \<Rightarrow> pyval" where
  "random_randint r lo hi = PyInt (lo + int (r mod nat (hi - lo + 1)))"

definition LoadSampler_pull ::
  "(nat \<Rightarrow> nat) \<Rightarrow> (int \<Rightarrow> int \<Rightarrow> ParticleFactory) \<Rightarrow> LoadSampler \<Rightarrow> LoadSampler" where
  "LoadSampler_pull rnd watson ls =
     (if load_type_eq (ls_load_type ls) ''scc'' then
        ls\<lparr>ls_sample := map (\<lambda>k. random_choice (rnd k) ascii_uppercase) [0 ..< nat (ls_tank_size ls)]\<rparr>
      else if load_type_eq (ls_load_type ls) ''int'' then
        ls\<lparr>ls_sample := map (\<lambda>k. random_randint (rnd k) 0 100) [0 ..< nat (ls_tank_size ls)]\<rparr>
      else if load_type_eq (ls_load_type ls) ''RBN'' then
        ls\<lparr>ls_sample := watson 8 2 (ls_tank_size ls)\<rparr>
      else (case ls_load_type ls of
              LoadFactory factory \<Rightarrow> ls\<lparr>ls_sample := factory (ls_tank_size ls)\<rparr>
            | _ \<Rightarrow> ls))"

definition LoadSampler_push :: "ListTank \<Rightarrow> LoadSampler \<Rightarrow> ListTank" where
  "LoadSampler_push containersout ls = ListTank_add containersout (ls_sample ls)"

subsection \<open>The assembler \<^verbatim>\<open>WellMixedTank\<close>\<close>

text \<open>
  The reaction subgraph as the assembler reads it: the three counts it compares with 1,
  and the lists it indexes at 0. Vertices and links are handles.
\<close>

record Subgraph =
  count_control_in :: int
  count_control_out :: int
  count_links :: int
  control_in :: "nat list"
  control_out :: "nat list"
  links :: "nat list"

text \<open>
  The vertices of the assembled graph, named as the local variables of the
  constructor. \<open>Bond\<close> stands for the reaction subgraph, entered at its control-in
  vertex and left at its control-out vertex.
\<close>

datatype node =
    Sload | Otime | Oreset | Ssample | Osample | Bond | Oreturn | Sreturn | Ogen | Dgen
  | Sgeneration | Olog | Ssimulation | Tterm

record containers =
  TTank :: ListTank
  TNew :: ListTank
  VTime :: StackEnvironment
  VGen :: StackEnvironment
  VBond :: DictionaryEnvironment
  VReaction :: DataFrameEnvironment
  SComposite :: ListTank

record WellMixedTank =
  wmt_containers :: containers
  wmt_start :: node
  wmt_sload :: LoadSampler
  wmt_ssample_size :: int
  wmt_dgen :: TimingsDecision
  wmt_log_node :: bool
  wmt_edges :: "(node \<times> node) list"

text \<open>
  The stable edges of lines 95 to 97, in the order in which they are added, followed
  by the two edges of lines 106 and 107 that connect the reaction subgraph.
\<close>

definition stable_edges :: "(node \<times> node) list" where
  "stable_edges =
     [(Sload, Otime), (Otime, Oreset), (Oreset, Ssample), (Ssample, Osample), (Oreturn, Sreturn),
      (Sreturn, Ogen), (Ogen, Dgen), (Dgen, Ssample), (Dgen, Sgeneration), (Sgeneration, Olog),
      (Olog, Otime), (Dgen, Ssimulation), (Ssimulation, Tterm)]"

definition ledger_columns :: "string list" where
  "ledger_columns =
     [''id1'', ''id2'', ''obj1'', ''obj2'', ''Prods'', ''Open_Spikes'', ''Bonded_Spikes'',
      ''Intensity'', ''Generation'']"

text \<open>
  The constructor. \<open>log_node\<close> tells whether the caller supplied a logger. The base
  class constructor \<^verbatim>\<open>Template.__init__\<close> is not among the sources and is taken to
  create the empty graph.
\<close>

definition WellMixedTank_init ::
  "Subgraph \<Rightarrow> int \<Rightarrow> int \<Rightarrow> int \<Rightarrow> int \<Rightarrow> load_type \<Rightarrow> bool \<Rightarrow> string option
     \<Rightarrow> error + WellMixedTank" where
  "WellMixedTank_init bondgraph sample_size' reactions generations tank_size' load_type' log_node
       load_file' =
     (if \<not> (count_control_in bondgraph = 1 \<and> count_control_out bondgraph = 1
             \<and> count_links bondgraph = 1)
      then Inl ValueError
      else
        (case index0 (control_in bondgraph) of
           Inl e \<Rightarrow> Inl e
         | Inr cin \<Rightarrow>
             (case index0 (control_out bondgraph) of
                Inl e \<Rightarrow> Inl e
              | Inr cout \<Rightarrow>
                  (case index0 (links bondgraph) of
                     Inl e \<Rightarrow> Inl e
                   | Inr link \<Rightarrow>
                       Inr \<lparr>wmt_containers =
                              \<lparr>TTank = [], TNew = [],
                               VTime = StackEnvironment_add [] 0,
                               VGen = StackEnvironment_add [] 0,
                               VBond = Map.empty,
                               VReaction = DataFrameEnvironment_init ledger_columns,
                               SComposite = []\<rparr>,
                            wmt_start = Sload,
                            wmt_sload = LoadSampler_init tank_size' load_type' load_file',
                            wmt_ssample_size = sample_size',
                            wmt_dgen = TimingsDecision_init generations reactions sample_size',
                            wmt_log_node = log_node,
                            wmt_edges = stable_edges @ [(Osample, Bond), (Bond, Oreturn)]\<rparr>))))"

subsection \<open>The export \<^verbatim>\<open>results_to_csv\<close>\<close>

text \<open>\<^verbatim>\<open>os.path.splitext\<close>: the extension starts at the last dot of the last component,
  unless only dots precede it there.\<close>

definition splitext :: "string \<Rightarrow> string \<times> string" where
  "splitext p =
     (let r = rev p;
          ext = rev (takeWhile (\<lambda>c. c \<noteq> CHR ''.'' \<and> c \<noteq> CHR ''/'') r)
      in case dropWhile (\<lambda>c. c \<noteq> CHR ''.'' \<and> c \<noteq> CHR ''/'') r of
           [] \<Rightarrow> (p, [])
         | c # base_rev \<Rightarrow>
             if c = CHR ''/'' then (p, [])
             else if list_ex (\<lambda>ch. ch \<noteq> CHR ''.'') (takeWhile (\<lambda>ch. ch \<noteq> CHR ''/'') base_rev)
               then (rev base_rev, CHR ''.'' # ext)
               else (p, []))"

text \<open>The body of the loop up to the test: the path tried for a suffix.\<close>

definition file_path_for :: "nat \<Rightarrow> string" where
  "file_path_for suffix =
     (if suffix = 0 then ''Outputs/output.csv''
      else (case splitext ''Outputs/output.csv'' of
              (base_name, extension) \<Rightarrow> base_name @ ''_'' @ str_nat suffix @ extension))"

text \<open>
  Modelled from the spec: \<^verbatim>\<open>DataFrame.to_csv(file, index=False)\<close> writes the header
  row of the columns and one row of cells for each row of the frame; \<open>render\<close> is how
  a cell is written.
\<close>

definition to_csv :: "(pyval option \<Rightarrow> string) \<Rightarrow> DataFrameEnvironment \<Rightarrow> string list list" where
  "to_csv render df = columns df # map (\<lambda>row. map (\<lambda>c. render (row c)) (columns df)) (rows df)"

text \<open>
  The loop of \<^verbatim>\<open>results_to_csv\<close>. It ends because the file system holds finitely many
  paths and distinct suffixes give distinct paths; the lemmas up to the termination
  proof establish that.
\<close>

declare str_nat.simps [simp del]

definition digit_val :: "char \<Rightarrow> nat" where
  "digit_val c = of_char c - 48"

definition nat_of_str :: "string \<Rightarrow> nat" where
  "nat_of_str s = foldl (\<lambda>a c. 10 * a + digit_val c) 0 s"

lemma digit_val_digit: "d < 10 \<Longrightarrow> digit_val (''0123456789'' ! d) = d"
proof -
  assume "d < 10"
  then have "d \<in> {0,1,2,3,4,5,6,7,8,9}" by auto
  then show ?thesis by (auto simp: digit_val_def)
qed

lemma nat_of_str_snoc: "nat_of_str (s @ [c]) = 10 * nat_of_str s + digit_val c"
  by (simp add: nat_of_str_def)

lemma nat_of_str_str_nat: "nat_of_str (str_nat n) = n"
proof (induction n rule: str_nat.induct)
  case (1 n)
  show ?case
  proof (cases "n < 10")
    case True
    then show ?thesis
      by (subst str_nat.simps) (simp add: nat_of_str_def digit_val_digit)
  next
    case False
    with 1 have ih: "nat_of_str (str_nat (n div 10)) = n div 10" by simp
    have "n mod 10 < 10" by simp
    then have "digit_val (''0123456789'' ! (n mod 10)) = n mod 10" by (rule digit_val_digit)
    with ih False show ?thesis
      by (subst str_nat.simps) (simp add: nat_of_str_snoc)
  qed
qed

lemma str_nat_inj: "str_nat a = str_nat b \<Longrightarrow> a = b"
  by (metis nat_of_str_str_nat)

lemma splitext_output: "splitext ''Outputs/output.csv'' = (''Outputs/output'', ''.csv'')"
  by (simp add: splitext_def)

lemma file_path_for_eq:
  "file_path_for k = (if k = 0 then ''Outputs/output.csv'' else ''Outputs/output_'' @ str_nat k @ ''.csv'')"
  by (simp add: file_path_for_def splitext_output)

lemma file_path_for_inj: "file_path_for a = file_path_for b \<Longrightarrow> a = b"
  by (auto simp: file_path_for_eq split: if_splits dest: str_nat_inj)

lemma finite_existing: "finite {k. path_exists fs (file_path_for k)}"
proof -
  have "finite (set (dirs fs) \<union> set (map fst (files fs)))" by simp
  moreover have "inj file_path_for" by (rule injI) (rule file_path_for_inj)
  ultimately have "finite (file_path_for -` (set (dirs fs) \<union> set (map fst (files fs))))"
    by (rule finite_vimageI)
  moreover have "{k. path_exists fs (file_path_for k)} = file_path_for -` (set (dirs fs) \<union> set (map fst (files fs)))"
    by (auto simp: path_exists_def)
  ultimately show ?thesis by simp
qed

function find_file_path :: "filesystem \<Rightarrow> nat \<Rightarrow> string" where
  "find_file_path fs suffix =
     (if \<not> path_exists fs (file_path_for suffix) then file_path_for suffix
      else find_file_path fs (suffix + 1))"
  by pat_completeness auto
termination
proof (relation "measure (\<lambda>(fs, suffix). card {k. suffix \<le> k \<and> path_exists fs (file_path_for k)})")
  show "wf (measure (\<lambda>(fs, suffix). card {k. suffix \<le> k \<and> path_exists fs (file_path_for k)}))"
    by simp
next
  fix fs :: filesystem and suffix :: nat
  assume ex: "\<not> \<not> path_exists fs (file_path_for suffix)"
  let ?A = "{k. suffix \<le> k \<and> path_exists fs (file_path_for k)}"
  let ?B = "{k. suffix + 1 \<le> k \<and> path_exists fs (file_path_for k)}"
  have fin: "finite ?A" by (rule finite_subset [OF _ finite_existing [of fs]]) auto
  have "suffix \<in> ?A" and "suffix \<notin> ?B" using ex by auto
  then have "?B \<noteq> ?A" by blast
  moreover have "?B \<subseteq> ?A" by auto
  ultimately have "?B \<subset> ?A" by (rule psubsetI [rotated])
  with fin have "card ?B < card ?A" by (rule psubset_card_mono)
  then show "((fs, suffix + 1), (fs, suffix)) \<in> measure (\<lambda>(fs, suffix). card {k. suffix \<le> k \<and> path_exists fs (file_path_for k)})"
    by simp
qed


text \<open>
  \<^verbatim>\<open>results_to_csv\<close>: the argument \<open>reactions\<close> is what \<^verbatim>\<open>self.reactions.read()\<close>
  returns. The result is the file system after the write, and the path returned.
\<close>

definition results_to_csv ::
  "(pyval option \<Rightarrow> string) \<Rightarrow> filesystem \<Rightarrow> DataFrameEnvironment
     \<Rightarrow> error + (filesystem \<times> string)" where
  "results_to_csv render fs reactions =
     (let file_path = find_file_path fs 0
      in case open_write fs file_path (to_csv render reactions) of
           Inl e \<Rightarrow> Inl e
         | Inr fs' \<Rightarrow> Inr (fs', file_path))"

text \<open>
  The call \<^verbatim>\<open>tank.results_to_csv(...)\<close> with the arguments \<open>args\<close> that follow
  \<^verbatim>\<open>self\<close>. The method is declared with \<^verbatim>\<open>self\<close> alone, so Python raises
  \<^verbatim>\<open>TypeError\<close> at the call, before the body runs, when any argument is passed.
\<close>

definition results_to_csv_call ::
  "(pyval option \<Rightarrow> string) \<Rightarrow> filesystem \<Rightarrow> DataFrameEnvironment \<Rightarrow> pyval list
     \<Rightarrow> error + (filesystem \<times> string)" where
  "results_to_csv_call render fs reactions args =
     (case args of
        [] \<Rightarrow> results_to_csv render fs reactions
      | a # as \<Rightarrow> Inl TypeError)"

subsection \<open>The generic nodes and the driver\<close>

text \<open>
  Modelled from the spec: the nodes of \<^verbatim>\<open>metachem.CoreControl\<close> and the driver
  \<^verbatim>\<open>Simulate\<close> are not among the sources. A clock observer adds one to its counter, a
  clock reset observer sets it to zero. A brute sampler moves every particle of its
  source to its destination. A simple sampler moves exactly \<open>size\<close> particles, chosen
  arbitrarily, and fails with \<open>InsufficientPopulationError\<close> when the source holds
  fewer. The driver executes a node and follows the out-edge selected by the node's
  decision (the first one for a node that decides nothing), until a node has no such
  edge or the step budget is used up.
\<close>

definition ClockObserver :: "StackEnvironment \<Rightarrow> error + StackEnvironment" where
  "ClockObserver c = (case c of [] \<Rightarrow> Inl IndexError | v # r \<Rightarrow> Inr ((v + 1) # r))"

definition ClockResetObserver :: "StackEnvironment \<Rightarrow> StackEnvironment" where
  "ClockResetObserver c = (case c of [] \<Rightarrow> [0] | v # r \<Rightarrow> 0 # r)"

definition BruteSampler :: "ListTank \<Rightarrow> ListTank \<Rightarrow> ListTank \<times> ListTank" where
  "BruteSampler src dst = ([], dst @ src)"

fun draw :: "(nat \<Rightarrow> nat) \<Rightarrow> nat \<Rightarrow> nat \<Rightarrow> ListTank \<Rightarrow> ListTank \<Rightarrow> ListTank \<times> ListTank" where
  "draw r k 0 src dst = (src, dst)"
| "draw r k (Suc n) src dst =
     (let i = r k mod length src
      in draw r (Suc k) n (take i src @ drop (Suc i) src) (dst @ [src ! i]))"

definition SimpleSampler ::
  "(nat \<Rightarrow> nat) \<Rightarrow> int \<Rightarrow> ListTank \<Rightarrow> ListTank \<Rightarrow> error + ListTank \<times> ListTank" where
  "SimpleSampler r size' src dst =
     (if int (length src) < size' then Inl InsufficientPopulationError
      else Inr (draw r 0 (nat size') src dst))"

text \<open>
  What surrounds a run: the random draws (indexed by the number of the visit and the
  number of the draw within it), the factory of Watson particles, the effect of one
  passage through the reaction subgraph on the sample buffer it is linked to (indexed
  by the number of the visit), and the file system.
\<close>

record env =
  rnd :: "nat \<Rightarrow> nat \<Rightarrow> nat"
  watson :: "int \<Rightarrow> int \<Rightarrow> ParticleFactory"
  bond :: "nat \<Rightarrow> pyval list \<Rightarrow> pyval list"
  fs :: filesystem


text \<open>
  One visit of a node: the four phases in order, on the containers the constructor
  gave the node. The result is the containers after the visit and the index of the
  out-edge to follow. \<open>t\<close> is the number of the visit.
\<close>

fun visit :: "env \<Rightarrow> WellMixedTank \<Rightarrow> nat \<Rightarrow> node \<Rightarrow> containers \<Rightarrow> error + containers \<times> nat" where
  "visit e G t Sload k =
     (case LoadSampler_read (fs e) (wmt_sload G) of
        Inl err \<Rightarrow> Inl err
      | Inr ls \<Rightarrow>
          Inr (k\<lparr>TTank := LoadSampler_push (TTank k) (LoadSampler_pull (rnd e t) (watson e) ls)\<rparr>, 0))"
| "visit e G t Otime k =
     (case ClockObserver (VTime k) of
        Inl err \<Rightarrow> Inl err
      | Inr c \<Rightarrow> Inr (k\<lparr>VTime := c\<rparr>, 0))"
| "visit e G t Oreset k = Inr (k\<lparr>VGen := ClockResetObserver (VGen k)\<rparr>, 0)"
| "visit e G t Ssample k =
     (case SimpleSampler (rnd e t) (wmt_ssample_size G) (TTank k) (SComposite k) of
        Inl err \<Rightarrow> Inl err
      | Inr (src, dst) \<Rightarrow> Inr (k\<lparr>TTank := src, SComposite := dst\<rparr>, 0))"
| "visit e G t Osample k =
     (case SampleObserver_process
             (SampleObserver_read (SComposite k) \<lparr>so_sample = [], so_dict = Map.empty\<rparr>) of
        Inl err \<Rightarrow> Inl err
      | Inr so \<Rightarrow> Inr (k\<lparr>VBond := SampleObserver_push (SampleObserver_pull (VBond k)) so\<rparr>, 0))"
| "visit e G t Bond k = Inr (k\<lparr>SComposite := bond e t (SComposite k)\<rparr>, 0)"
| "visit e G t Oreturn k =
     (case ReturnObserver_process (VGen k)
             (ReturnObserver_read (SComposite k) (VBond k) \<lparr>ro_sample = [], ro_dict = Map.empty\<rparr>) of
        Inl err \<Rightarrow> Inl err
      | Inr ro \<Rightarrow> Inr (k\<lparr>VReaction := ReturnObserver_push (VReaction k) ro\<rparr>, 0))"
| "visit e G t Sreturn k =
     (case BruteSampler (SComposite k) (TNew k) of
        (src, dst) \<Rightarrow> Inr (k\<lparr>SComposite := src, TNew := dst\<rparr>, 0))"
| "visit e G t Ogen k =
     (case ClockObserver (VGen k) of
        Inl err \<Rightarrow> Inl err
      | Inr c \<Rightarrow> Inr (k\<lparr>VGen := c\<rparr>, 0))"
| "visit e G t Dgen k =
     (case TimingsDecision_read (VGen k) (VTime k) (TTank k) (wmt_dgen G) of
        Inl err \<Rightarrow> Inl err
      | Inr d \<Rightarrow> Inr (k, nat (TimingsDecision_process d)))"
| "visit e G t Sgeneration k =
     (case BruteSampler (TNew k) (TTank k) of
        (src, dst) \<Rightarrow> Inr (k\<lparr>TNew := src, TTank := dst\<rparr>, 0))"
| "visit e G t Olog k =
     (if wmt_log_node G then Inr (k, 0)
      else (case index0 (VTime k) of
              Inl err \<Rightarrow> Inl err
            | Inr clock \<Rightarrow>
                (case index0 (VGen k) of
                   Inl err \<Rightarrow> Inl err
                 | Inr reactions \<Rightarrow> Inr (k, 0))))"
| "visit e G t Ssimulation k =
     (case BruteSampler (TNew k) (TTank k) of
        (src, dst) \<Rightarrow> Inr (k\<lparr>TNew := src, TTank := dst\<rparr>, 0))"
| "visit e G t Tterm k = Inr (k, 0)"

record config =
  at_node :: node
  cont :: containers
  visits :: nat

definition successors :: "(node \<times> node) list \<Rightarrow> node \<Rightarrow> node list" where
  "successors es n = map snd (filter (\<lambda>e. fst e = n) es)"

text \<open>One step of the driver; \<open>None\<close> when the node has no out-edge to follow.\<close>

definition step :: "env \<Rightarrow> WellMixedTank \<Rightarrow> config \<Rightarrow> error + config option" where
  "step e G c =
     (case visit e G (visits c) (at_node c) (cont c) of
        Inl err \<Rightarrow> Inl err
      | Inr (k, i) \<Rightarrow>
          Inr (case drop i (successors (wmt_edges G) (at_node c)) of
                 [] \<Rightarrow> None
               | n # ns \<Rightarrow> Some \<lparr>at_node = n, cont = k, visits = visits c + 1\<rparr>))"

text \<open>
  The configurations of a run, in order, under a budget of steps: each is the node
  about to be visited and the containers it will find. The run ends at an exception,
  at a node without out-edge, or with the budget.
\<close>

fun trace :: "env \<Rightarrow> WellMixedTank \<Rightarrow> nat \<Rightarrow> config \<Rightarrow> config list" where
  "trace e G 0 c = [c]"
| "trace e G (Suc n) c =
     (case step e G c of
        Inl err \<Rightarrow> [c]
      | Inr None \<Rightarrow> [c]
      | Inr (Some c') \<Rightarrow> c # trace e G n c')"

definition initial :: "WellMixedTank \<Rightarrow> config" where
  "initial G = \<lparr>at_node = wmt_start G, cont = wmt_containers G, visits = 0\<rparr>"

text \<open>
  Assembling an experiment and running it under a budget of steps, as the main
  program does: when the constructor raises, nothing is run.
\<close>

definition assemble_and_run ::
  "Subgraph \<Rightarrow> int \<Rightarrow> int \<Rightarrow> int \<Rightarrow> int \<Rightarrow> load_type \<Rightarrow> bool \<Rightarrow> string option
     \<Rightarrow> env \<Rightarrow> nat \<Rightarrow> error + config list" where
  "assemble_and_run bondgraph sample_size' reactions generations tank_size' load_type' log_node
       load_file' e n =
     (case WellMixedTank_init bondgraph sample_size' reactions generations tank_size' load_type'
             log_node load_file' of
        Inl err \<Rightarrow> Inl err
      | Inr G \<Rightarrow> Inr (trace e G n (initial G)))"

subsection \<open>The particles of a run\<close>





subsection \<open>Paths of the assembled graph\<close>

text \<open>The edges that the constructor gives every graph it assembles.\<close>

definition assembled_edges :: "(node \<times> node) list" where
  "assembled_edges = stable_edges @ [(Osample, Bond), (Bond, Oreturn)]"

text \<open>
  The number of visits of the reset node on any path from a node up to its next
  arrival at the generation-advance sampler, the start of the path included; \<open>None\<close>
  for the nodes from which that sampler is out of reach.
\<close>

fun resets_ahead :: "node \<Rightarrow> nat option" where
  "resets_ahead Sload = Some 1"
| "resets_ahead Otime = Some 1"
| "resets_ahead Oreset = Some 1"
| "resets_ahead Sgeneration = Some 1"
| "resets_ahead Olog = Some 1"
| "resets_ahead Ssimulation = None"
| "resets_ahead Tterm = None"
| "resets_ahead n = Some 0"

subsection \<open>An example experiment\<close>

text \<open>
  A subgraph of the required shape, and surroundings in which every random draw is 0
  and the reaction hands back the particles it was given.
\<close>

definition example_subgraph :: Subgraph where
  "example_subgraph =
     \<lparr>count_control_in = 1, count_control_out = 1, count_links = 1,
      control_in = [0], control_out = [1], links = [2]\<rparr>"

definition example_env :: env where
  "example_env =
     \<lparr>rnd = (\<lambda>t k. 0), watson = (\<lambda>a b n. []), bond = (\<lambda>t s. s),
      fs = \<lparr>dirs = [], files = [], refused = []\<rparr>\<rparr>"

section \<open>Properties\<close>

lemma rbn_parts_all: "(rbn_parts xs \<noteq> None) = list_all isinstance_RBNParticle xs"
proof (induction xs)
  case Nil
  show ?case by simp
next
  case (Cons x xs)
  then show ?case by (cases x) (auto split: option.splits)
qed

subsection \<open>The decision node\<close>

text \<open>
  C1. At every visit, the process phase of the decision node returns 0 exactly when
  the per-generation counter is below the reactions threshold and the pool holds at
  least a sample; otherwise it returns 1 exactly when the elapsed-time counter is below
  the generations threshold; otherwise it returns 2. With a reactions threshold of 3
  and a pool that holds a sample, the counter value 2 gives 0, the value 3 gives 1
  while the elapsed time is below its threshold and 2 when it equals the threshold.
  The last conjunct is the visit of the node as the assembler wires it: the counter
  read from \<^verbatim>\<open>VGen\<close> is compared with \<^verbatim>\<open>reactions\<close>, the one read from \<^verbatim>\<open>VTime\<close>
  with \<^verbatim>\<open>generations\<close>, and the length of \<^verbatim>\<open>TTank\<close> with the sample size.
\<close>

theorem TimingsDecision_priority:
  "((TimingsDecision_process d = 0) = (gen d < gen_thresh d \<and> sample_size d \<le> tank_size d))
   \<and> (\<not> (gen d < gen_thresh d \<and> sample_size d \<le> tank_size d)
        \<longrightarrow> (TimingsDecision_process d = 1) = (time d < time_thresh d))
   \<and> (\<not> (gen d < gen_thresh d \<and> sample_size d \<le> tank_size d) \<and> \<not> time d < time_thresh d
        \<longrightarrow> TimingsDecision_process d = 2)
   \<and> TimingsDecision_process d \<in> {0, 1, 2}
   \<and> (gen_thresh d = 3 \<and> sample_size d \<le> tank_size d \<and> gen d = 2
        \<longrightarrow> TimingsDecision_process d = 0)
   \<and> (gen_thresh d = 3 \<and> sample_size d \<le> tank_size d \<and> gen d = 3 \<and> time d < time_thresh d
        \<longrightarrow> TimingsDecision_process d = 1)
   \<and> (gen_thresh d = 3 \<and> sample_size d \<le> tank_size d \<and> gen d = 3 \<and> time d = time_thresh d
        \<longrightarrow> TimingsDecision_process d = 2)
   \<and> dgen_visit generations reactions size' (g # gs) (t # ts) (ttank :: pyval list) =
        Inr (if g < reactions \<and> size' \<le> int (length ttank) then 0
             else if t < generations then 1 else 2)"
  by (simp add: TimingsDecision_process_def dgen_visit_def dgen_node_def
      TimingsDecision_read_def TimingsDecision_init_def)

theorem TimingsDecision_priority_witness:
  "TimingsDecision_process
     \<lparr>time_thresh = 5, gen_thresh = 3, sample_size = 2, time = 1, gen = 2, tank_size = 4\<rparr> = 0
   \<and> TimingsDecision_process
     \<lparr>time_thresh = 5, gen_thresh = 3, sample_size = 2, time = 1, gen = 3, tank_size = 4\<rparr> = 1
   \<and> TimingsDecision_process
     \<lparr>time_thresh = 5, gen_thresh = 3, sample_size = 2, time = 5, gen = 3, tank_size = 4\<rparr> = 2
   \<and> TimingsDecision_process
     \<lparr>time_thresh = 5, gen_thresh = 3, sample_size = 2, time = 1, gen = 0, tank_size = 1\<rparr> = 1
   \<and> dgen_visit 5 3 2 [3] [5] [PyInt 7, PyInt 8] = Inr 2"
  using
    TimingsDecision_priority [of "\<lparr>time_thresh = 5, gen_thresh = 3, sample_size = 2, time = 1, gen = 2, tank_size = 4\<rparr>" 5 3 2 3 "[]" 5 "[]" "[PyInt 7, PyInt 8]"]
    TimingsDecision_priority [of "\<lparr>time_thresh = 5, gen_thresh = 3, sample_size = 2, time = 1, gen = 3, tank_size = 4\<rparr>" 5 3 2 3 "[]" 5 "[]" "[PyInt 7, PyInt 8]"]
    TimingsDecision_priority [of "\<lparr>time_thresh = 5, gen_thresh = 3, sample_size = 2, time = 5, gen = 3, tank_size = 4\<rparr>" 5 3 2 3 "[]" 5 "[]" "[PyInt 7, PyInt 8]"]
    TimingsDecision_priority [of "\<lparr>time_thresh = 5, gen_thresh = 3, sample_size = 2, time = 1, gen = 0, tank_size = 1\<rparr>" 5 3 2 3 "[]" 5 "[]" "[PyInt 7, PyInt 8]"]
  by simp

subsection \<open>The observers\<close>

lemma Some_recorded_id:
  "Some (recorded_id v) = (if isinstance_Particle v then particle_id v else Some (PyStr ''n/a''))"
  by (cases v) (simp_all add: recorded_id_def)

text \<open>
  C4. For a sample of one or two items, the process phase of the pre-reaction
  observer raises nothing and records four keys: for each item its id when the item
  is a \<^verbatim>\<open>Particle\<close> and the string n/a otherwise, together with the item itself; for
  a sample of a single item the second identity and the second value are both the
  string None.
\<close>

theorem SampleObserver_process_records:
  assumes "so_sample so = x # rest" and "length rest \<le> 1"
  shows "\<exists>so'. SampleObserver_process so = Inr so'
           \<and> so_sample so' = so_sample so
           \<and> dom (so_dict so') = {''id1'', ''id2'', ''obj1'', ''obj2''}
           \<and> so_dict so' ''id1'' = (if isinstance_Particle x then particle_id x else Some (PyStr ''n/a''))
           \<and> so_dict so' ''obj1'' = Some x
           \<and> (\<forall>y. rest = [y] \<longrightarrow>
                 so_dict so' ''id2'' = (if isinstance_Particle y then particle_id y else Some (PyStr ''n/a''))
                 \<and> so_dict so' ''obj2'' = Some y)
           \<and> (rest = [] \<longrightarrow>
                 so_dict so' ''id2'' = Some (PyStr ''None'') \<and> so_dict so' ''obj2'' = Some (PyStr ''None''))
           \<and> particle_id (Particle i) = Some (of_scalar i)
           \<and> particle_id (RBNParticle p) = Some (of_scalar (rbn_id p))"
proof (cases rest)
  case Nil
  with assms show ?thesis
    by (simp add: SampleObserver_process_def Some_recorded_id [symmetric]) auto
next
  case (Cons y rest')
  with assms have "rest = [y]" by simp
  with assms show ?thesis
    by (simp add: SampleObserver_process_def Some_recorded_id [symmetric]) auto
qed

theorem SampleObserver_process_records_witness:
  "(\<exists>so'. SampleObserver_process \<lparr>so_sample = [PyInt 7], so_dict = Map.empty\<rparr> = Inr so'
        \<and> so_dict so' ''id1'' = Some (PyStr ''n/a'') \<and> so_dict so' ''obj1'' = Some (PyInt 7)
        \<and> so_dict so' ''id2'' = Some (PyStr ''None'') \<and> so_dict so' ''obj2'' = Some (PyStr ''None''))
   \<and> (\<exists>so'. SampleObserver_process \<lparr>so_sample = [Particle (SInt 4), PyStr ''A''], so_dict = Map.empty\<rparr>
          = Inr so'
        \<and> so_dict so' ''id1'' = Some (PyInt 4) \<and> so_dict so' ''obj1'' = Some (Particle (SInt 4))
        \<and> so_dict so' ''id2'' = Some (PyStr ''n/a'') \<and> so_dict so' ''obj2'' = Some (PyStr ''A''))"
proof -
  have a: "so_sample \<lparr>so_sample = [PyInt 7], so_dict = Map.empty\<rparr> = PyInt 7 # []"
    and b: "so_sample \<lparr>so_sample = [Particle (SInt 4), PyStr ''A''], so_dict = Map.empty\<rparr> = Particle (SInt 4) # [PyStr ''A'']"
    and c: "length ([] :: pyval list) \<le> 1" and d: "length [PyStr ''A''] \<le> 1"
    by simp_all
  from SampleObserver_process_records [OF a c] have "\<exists>so'. SampleObserver_process \<lparr>so_sample = [PyInt 7], so_dict = Map.empty\<rparr> = Inr so'
        \<and> so_dict so' ''id1'' = Some (PyStr ''n/a'') \<and> so_dict so' ''obj1'' = Some (PyInt 7)
        \<and> so_dict so' ''id2'' = Some (PyStr ''None'') \<and> so_dict so' ''obj2'' = Some (PyStr ''None'')"
    by simp blast
  moreover from SampleObserver_process_records [OF b d] have "\<exists>so'. SampleObserver_process \<lparr>so_sample = [Particle (SInt 4), PyStr ''A''], so_dict = Map.empty\<rparr>
          = Inr so'
        \<and> so_dict so' ''id1'' = Some (PyInt 4) \<and> so_dict so' ''obj1'' = Some (Particle (SInt 4))
        \<and> so_dict so' ''id2'' = Some (PyStr ''n/a'') \<and> so_dict so' ''obj2'' = Some (PyStr ''A'')"
    by simp blast
  ultimately show ?thesis by (rule conjI)
qed


lemma rbn_parts_Some: "rbn_parts xs = Some ps \<Longrightarrow> xs = map RBNParticle ps"
proof (induction xs arbitrary: ps)
  case Nil
  then show ?case by simp
next
  case (Cons x xs)
  then show ?case by (cases x) (auto split: option.splits)
qed

lemma rbn_parts_map: "rbn_parts (map RBNParticle ps) = Some ps"
  by (induction ps) simp_all

lemma total_intensity_sum:
  "total_intensity p =
     sum_list (map (\<lambda>e. intensity (entry0 e)) (open_spikes p))
     + sum_list (map (\<lambda>e. intensity (entry0 e)) (bonds p))"
  by (simp add: total_intensity_def spike_pairs_def comp_def)

lemma part_info_id: "\<exists>rest. part_info p = ''RBNParticle(ID='' @ format_scalar (rbn_id p) @ rest"
  unfolding part_info_def by blast

text \<open>
  C2. At every visit of the post-reaction observer at which the generation counter
  can be read, the process phase succeeds and sets \<^verbatim>\<open>Generation\<close> to the counter's
  current value. When every product is an \<^verbatim>\<open>RBNParticle\<close>, \<^verbatim>\<open>Prods\<close> holds for each
  product a description that carries its id, \<^verbatim>\<open>Open_Spikes\<close> and \<^verbatim>\<open>Bonded_Spikes\<close> hold
  the pairs of spike number and intensity of its open and of its bonded spikes, and
  \<^verbatim>\<open>Intensity\<close> holds the sum of the intensities over both lists. Otherwise each of
  the four fields holds the string N/A once for each item of the sample.
\<close>

theorem ReturnObserver_process_fields:
  assumes "index0 vgen_read = Inr current_generation"
  shows "\<exists>ro'. ReturnObserver_process vgen_read ro = Inr ro'
     \<and> ro_sample ro' = ro_sample ro
     \<and> ro_dict ro' ''Generation'' = Some (PyInt current_generation)
     \<and> list_all isinstance_RBNParticle (ro_sample ro) =
         (\<exists>parts. ro_sample ro = map RBNParticle parts)
     \<and> (\<forall>parts. ro_sample ro = map RBNParticle parts \<longrightarrow>
            ro_dict ro' ''Prods'' = Some (PyList (map (\<lambda>p. PyStr (part_info p)) parts))
            \<and> (\<forall>p \<in> set parts. \<exists>rest.
                  part_info p = ''RBNParticle(ID='' @ format_scalar (rbn_id p) @ rest)
            \<and> ro_dict ro' ''Open_Spikes'' =
                Some (PyList (map (\<lambda>p. py_pairs (map (\<lambda>e. (spikeNumber (entry0 e), intensity (entry0 e)))
                                                    (open_spikes p))) parts))
            \<and> ro_dict ro' ''Bonded_Spikes'' =
                Some (PyList (map (\<lambda>p. py_pairs (map (\<lambda>e. (spikeNumber (entry0 e), intensity (entry0 e)))
                                                    (bonds p))) parts))
            \<and> ro_dict ro' ''Intensity'' =
                Some (PyList (map (\<lambda>p. PyInt (sum_list (map (\<lambda>e. intensity (entry0 e)) (open_spikes p))
                                              + sum_list (map (\<lambda>e. intensity (entry0 e)) (bonds p))))
                                  parts)))
     \<and> (\<not> list_all isinstance_RBNParticle (ro_sample ro) \<longrightarrow>
          ro_dict ro' ''Prods'' = Some (PyList (replicate (length (ro_sample ro)) (PyStr ''N/A'')))
          \<and> ro_dict ro' ''Open_Spikes'' = Some (PyList (replicate (length (ro_sample ro)) (PyStr ''N/A'')))
          \<and> ro_dict ro' ''Bonded_Spikes'' = Some (PyList (replicate (length (ro_sample ro)) (PyStr ''N/A'')))
          \<and> ro_dict ro' ''Intensity'' = Some (PyList (replicate (length (ro_sample ro)) (PyStr ''N/A''))))"
proof -
  have cap: "list_all isinstance_RBNParticle (ro_sample ro) =
         (\<exists>parts. ro_sample ro = map RBNParticle parts)"
    using rbn_parts_all [of "ro_sample ro"] rbn_parts_Some [of "ro_sample ro"] rbn_parts_map
    by (metis not_Some_eq)
  show ?thesis
  proof (cases "rbn_parts (ro_sample ro)")
    case None
    then have no: "\<not> list_all isinstance_RBNParticle (ro_sample ro)"
      using rbn_parts_all [of "ro_sample ro"] by simp
    with cap have "\<And>parts. ro_sample ro \<noteq> map RBNParticle parts" by blast
    with None no assms show ?thesis
      by (simp add: ReturnObserver_process_def)
  next
    case (Some parts)
    then have all: "list_all isinstance_RBNParticle (ro_sample ro)"
      using rbn_parts_all [of "ro_sample ro"] by simp
    from Some have smp: "ro_sample ro = map RBNParticle parts" by (rule rbn_parts_Some)
    have uniq: "ps = parts" if "ro_sample ro = map RBNParticle ps" for ps
      using that Some rbn_parts_map [of ps] by simp
    let ?ro' = "ro\<lparr>ro_dict := (ro_dict ro)
                   (''Prods'' \<mapsto> PyList (map (\<lambda>part. PyStr (part_info part)) parts),
                    ''Open_Spikes'' \<mapsto> PyList (map (\<lambda>part. py_pairs (spike_pairs (open_spikes part))) parts),
                    ''Bonded_Spikes'' \<mapsto> PyList (map (\<lambda>part. py_pairs (spike_pairs (bonds part))) parts),
                    ''Intensity'' \<mapsto> PyList (map (\<lambda>part. PyInt (total_intensity part)) parts),
                    ''Generation'' \<mapsto> PyInt current_generation)\<rparr>"
    have run: "ReturnObserver_process vgen_read ro = Inr ?ro'"
      using Some assms by (simp add: ReturnObserver_process_def)
    have ids: "\<forall>p \<in> set parts. \<exists>rest.
                    part_info p = ''RBNParticle(ID='' @ format_scalar (rbn_id p) @ rest"
      using part_info_id by blast
    have prods: "ro_dict ?ro' ''Prods'' = Some (PyList (map (\<lambda>p. PyStr (part_info p)) parts))"
      by simp
    have opens: "ro_dict ?ro' ''Open_Spikes'' =
                  Some (PyList (map (\<lambda>p. py_pairs (map (\<lambda>e. (spikeNumber (entry0 e), intensity (entry0 e)))
                                                      (open_spikes p))) parts))"
      by (simp add: spike_pairs_def)
    have bonded: "ro_dict ?ro' ''Bonded_Spikes'' =
                  Some (PyList (map (\<lambda>p. py_pairs (map (\<lambda>e. (spikeNumber (entry0 e), intensity (entry0 e)))
                                                      (bonds p))) parts))"
      by (simp add: spike_pairs_def)
    have intens: "ro_dict ?ro' ''Intensity'' =
                  Some (PyList (map (\<lambda>p. PyInt (sum_list (map (\<lambda>e. intensity (entry0 e)) (open_spikes p))
                                                + sum_list (map (\<lambda>e. intensity (entry0 e)) (bonds p))))
                                    parts))"
      by (simp add: total_intensity_sum)
    have gener: "ro_dict ?ro' ''Generation'' = Some (PyInt current_generation)"
      by simp
    have same: "ro_sample ?ro' = ro_sample ro"
      by simp
    from run same gener all cap uniq prods ids opens bonded intens show ?thesis
      by blast
  qed
qed

theorem ReturnObserver_process_fields_witness:
  "(\<exists>ro'. ReturnObserver_process [4]
            \<lparr>ro_sample = [RBNParticle \<lparr>rbn_id = SInt 1, atoms = [SInt 0],
                           open_spikes = [Entry (Spike 0 2) []], bonds = [Entry (Spike 1 3) []]\<rparr>],
             ro_dict = Map.empty\<rparr> = Inr ro'
          \<and> ro_dict ro' ''Generation'' = Some (PyInt 4)
          \<and> ro_dict ro' ''Open_Spikes'' = Some (PyList [PyList [PyTuple [PyInt 0, PyInt 2]]])
          \<and> ro_dict ro' ''Bonded_Spikes'' = Some (PyList [PyList [PyTuple [PyInt 1, PyInt 3]]])
          \<and> ro_dict ro' ''Intensity'' = Some (PyList [PyInt 5]))
   \<and> (\<exists>ro'. ReturnObserver_process [4] \<lparr>ro_sample = [PyInt 1, Particle (SInt 2)], ro_dict = Map.empty\<rparr>
            = Inr ro'
          \<and> ro_dict ro' ''Generation'' = Some (PyInt 4)
          \<and> ro_dict ro' ''Prods'' = Some (PyList [PyStr ''N/A'', PyStr ''N/A''])
          \<and> ro_dict ro' ''Open_Spikes'' = Some (PyList [PyStr ''N/A'', PyStr ''N/A''])
          \<and> ro_dict ro' ''Bonded_Spikes'' = Some (PyList [PyStr ''N/A'', PyStr ''N/A''])
          \<and> ro_dict ro' ''Intensity'' = Some (PyList [PyStr ''N/A'', PyStr ''N/A'']))"
proof -
  have g: "index0 [4 :: int] = Inr 4" by simp
  let ?p = "\<lparr>rbn_id = SInt 1, atoms = [SInt 0],
             open_spikes = [Entry (Spike 0 2) []], bonds = [Entry (Spike 1 3) []]\<rparr>"
  have two: "replicate (length [PyInt 1, Particle (SInt 2)]) (PyStr ''N/A'') = [PyStr ''N/A'', PyStr ''N/A'']"
    by (simp add: numeral_2_eq_2)
  have one: "ro_sample \<lparr>ro_sample = [RBNParticle ?p], ro_dict = Map.empty\<rparr> = map RBNParticle [?p]"
    by simp
  from ReturnObserver_process_fields [OF g, of "\<lparr>ro_sample = [RBNParticle ?p], ro_dict = Map.empty\<rparr>"]
  obtain ro' where
    r: "ReturnObserver_process [4] \<lparr>ro_sample = [RBNParticle ?p], ro_dict = Map.empty\<rparr> = Inr ro'"
    and gn: "ro_dict ro' ''Generation'' = Some (PyInt 4)"
    and al: "\<forall>parts. ro_sample \<lparr>ro_sample = [RBNParticle ?p], ro_dict = Map.empty\<rparr> = map RBNParticle parts \<longrightarrow>
            ro_dict ro' ''Prods'' = Some (PyList (map (\<lambda>p. PyStr (part_info p)) parts))
            \<and> (\<forall>p \<in> set parts. \<exists>rest.
                  part_info p = ''RBNParticle(ID='' @ format_scalar (rbn_id p) @ rest)
            \<and> ro_dict ro' ''Open_Spikes'' =
                Some (PyList (map (\<lambda>p. py_pairs (map (\<lambda>e. (spikeNumber (entry0 e), intensity (entry0 e)))
                                                    (open_spikes p))) parts))
            \<and> ro_dict ro' ''Bonded_Spikes'' =
                Some (PyList (map (\<lambda>p. py_pairs (map (\<lambda>e. (spikeNumber (entry0 e), intensity (entry0 e)))
                                                    (bonds p))) parts))
            \<and> ro_dict ro' ''Intensity'' =
                Some (PyList (map (\<lambda>p. PyInt (sum_list (map (\<lambda>e. intensity (entry0 e)) (open_spikes p))
                                              + sum_list (map (\<lambda>e. intensity (entry0 e)) (bonds p))))
                                  parts))"
    by blast
  from al [rule_format, of "[?p]"] have
    "ro_dict ro' ''Open_Spikes'' = Some (PyList [PyList [PyTuple [PyInt 0, PyInt 2]]])
     \<and> ro_dict ro' ''Bonded_Spikes'' = Some (PyList [PyList [PyTuple [PyInt 1, PyInt 3]]])
     \<and> ro_dict ro' ''Intensity'' = Some (PyList [PyInt 5])"
    by (simp add: py_pairs_def)
  with r gn have first: "\<exists>ro'. ReturnObserver_process [4]
            \<lparr>ro_sample = [RBNParticle ?p], ro_dict = Map.empty\<rparr> = Inr ro'
          \<and> ro_dict ro' ''Generation'' = Some (PyInt 4)
          \<and> ro_dict ro' ''Open_Spikes'' = Some (PyList [PyList [PyTuple [PyInt 0, PyInt 2]]])
          \<and> ro_dict ro' ''Bonded_Spikes'' = Some (PyList [PyList [PyTuple [PyInt 1, PyInt 3]]])
          \<and> ro_dict ro' ''Intensity'' = Some (PyList [PyInt 5])"
    by blast
  from ReturnObserver_process_fields [OF g, of "\<lparr>ro_sample = [PyInt 1, Particle (SInt 2)], ro_dict = Map.empty\<rparr>"]
  have second: "\<exists>ro'. ReturnObserver_process [4] \<lparr>ro_sample = [PyInt 1, Particle (SInt 2)], ro_dict = Map.empty\<rparr>
            = Inr ro'
          \<and> ro_dict ro' ''Generation'' = Some (PyInt 4)
          \<and> ro_dict ro' ''Prods'' = Some (PyList [PyStr ''N/A'', PyStr ''N/A''])
          \<and> ro_dict ro' ''Open_Spikes'' = Some (PyList [PyStr ''N/A'', PyStr ''N/A''])
          \<and> ro_dict ro' ''Bonded_Spikes'' = Some (PyList [PyStr ''N/A'', PyStr ''N/A''])
          \<and> ro_dict ro' ''Intensity'' = Some (PyList [PyStr ''N/A'', PyStr ''N/A''])"
    unfolding two [symmetric] by simp blast
  from first second show ?thesis by (rule conjI)
qed

text \<open>
  C10. On an empty sample the test over all products holds, the process phase takes
  the branch of the computed fields, and the row that \<^verbatim>\<open>push\<close> appends to the ledger
  has the empty list, not the string N/A, under \<^verbatim>\<open>Prods\<close>, \<^verbatim>\<open>Open_Spikes\<close>,
  \<^verbatim>\<open>Bonded_Spikes\<close> and \<^verbatim>\<open>Intensity\<close>, and the current value of the generation counter
  under \<^verbatim>\<open>Generation\<close>.
\<close>

theorem ReturnObserver_process_empty_sample:
  "list_all isinstance_RBNParticle (ro_sample (ro\<lparr>ro_sample := []\<rparr>))
   \<and> rbn_parts (ro_sample (ro\<lparr>ro_sample := []\<rparr>)) = Some []
   \<and> ReturnObserver_process (current_generation # older) (ro\<lparr>ro_sample := []\<rparr>) =
       Inr (ro\<lparr>ro_sample := [],
               ro_dict := (ro_dict ro)
                 (''Prods'' \<mapsto> PyList [], ''Open_Spikes'' \<mapsto> PyList [],
                  ''Bonded_Spikes'' \<mapsto> PyList [], ''Intensity'' \<mapsto> PyList [],
                  ''Generation'' \<mapsto> PyInt current_generation)\<rparr>)
   \<and> rows (ReturnObserver_push ledger
        (ro\<lparr>ro_sample := [],
               ro_dict := (ro_dict ro)
                 (''Prods'' \<mapsto> PyList [], ''Open_Spikes'' \<mapsto> PyList [],
                  ''Bonded_Spikes'' \<mapsto> PyList [], ''Intensity'' \<mapsto> PyList [],
                  ''Generation'' \<mapsto> PyInt current_generation)\<rparr>)) =
       rows ledger @
         [(ro_dict ro)
            (''Prods'' \<mapsto> PyList [], ''Open_Spikes'' \<mapsto> PyList [],
             ''Bonded_Spikes'' \<mapsto> PyList [], ''Intensity'' \<mapsto> PyList [],
             ''Generation'' \<mapsto> PyInt current_generation)]
   \<and> PyList [] \<noteq> PyStr ''N/A''"
  by (simp add: ReturnObserver_process_def ReturnObserver_push_def DataFrameEnvironment_add_def)

subsection \<open>The assembler and the loader\<close>

lemma index0_Inl [simp]: "(index0 xs = Inl err) = (xs = [] \<and> err = IndexError)"
  by (cases xs) auto

lemma index0_Inr [simp]: "(index0 xs = Inr x) = (\<exists>r. xs = x # r)"
  by (cases xs) auto

text \<open>
  The claim C5 as written fails: the exception that the constructor raises for a
  subgraph with two control-in vertices is \<open>ValueError\<close>, not \<open>GraphShapeError\<close>.
\<close>

theorem WellMixedTank_init_shape_check_counterexample:
  "WellMixedTank_init
     \<lparr>count_control_in = 2, count_control_out = 1, count_links = 1,
      control_in = [0, 1], control_out = [2], links = [3]\<rparr>
     2 100 10000 1000 (LoadStr ''RBN'') False None = Inl ValueError
   \<and> WellMixedTank_init
     \<lparr>count_control_in = 2, count_control_out = 1, count_links = 1,
      control_in = [0, 1], control_out = [2], links = [3]\<rparr>
     2 100 10000 1000 (LoadStr ''RBN'') False None \<noteq> Inl GraphShapeError"
  by (simp add: WellMixedTank_init_def)

text \<open>
  C5, amended. The constructor raises \<open>ValueError\<close> exactly when the reaction subgraph
  does not have one control-in vertex, one control-out vertex and one link; when the
  three counts are one it raises no such error. The failure is at assembly time: for
  a subgraph of the wrong shape, assembling and running ends with that error under
  every step budget and in every environment, with no configuration reached and so no
  node executed. It is never at run time: every graph that the constructor returns,
  and so every graph that is run, has the three counts equal to one.
\<close>

theorem WellMixedTank_init_shape_check:
  "(WellMixedTank_init bondgraph size' reactions generations tank_size' load_type' log_node load_file'
      = Inl ValueError)
    = (\<not> (count_control_in bondgraph = 1 \<and> count_control_out bondgraph = 1
           \<and> count_links bondgraph = 1))
   \<and> (\<not> (count_control_in bondgraph = 1 \<and> count_control_out bondgraph = 1
           \<and> count_links bondgraph = 1)
        \<longrightarrow> assemble_and_run bondgraph size' reactions generations tank_size' load_type' log_node
              load_file' e n = Inl ValueError)
   \<and> ((\<exists>G. WellMixedTank_init bondgraph size' reactions generations tank_size' load_type' log_node
              load_file' = Inr G)
        \<longrightarrow> count_control_in bondgraph = 1 \<and> count_control_out bondgraph = 1
           \<and> count_links bondgraph = 1)"
  by (auto simp: WellMixedTank_init_def assemble_and_run_def split: sum.splits list.splits)

theorem WellMixedTank_init_shape_check_witness:
  "WellMixedTank_init
     \<lparr>count_control_in = 1, count_control_out = 0, count_links = 1,
      control_in = [0], control_out = [], links = [3]\<rparr>
     2 100 10000 1000 LoadNone False None = Inl ValueError
   \<and> assemble_and_run
     \<lparr>count_control_in = 1, count_control_out = 0, count_links = 1,
      control_in = [0], control_out = [], links = [3]\<rparr>
     2 100 10000 1000 LoadNone False None example_env 7 = Inl ValueError
   \<and> WellMixedTank_init
     \<lparr>count_control_in = 1, count_control_out = 1, count_links = 1,
      control_in = [0], control_out = [1], links = [3]\<rparr>
     2 100 10000 1000 LoadNone False None \<noteq> Inl ValueError
   \<and> (\<exists>G. WellMixedTank_init
     \<lparr>count_control_in = 1, count_control_out = 1, count_links = 1,
      control_in = [0], control_out = [1], links = [3]\<rparr>
     2 100 10000 1000 LoadNone False None = Inr G)"
  using
    WellMixedTank_init_shape_check [of "\<lparr>count_control_in = 1, count_control_out = 0, count_links = 1,
      control_in = [0], control_out = [], links = [3]\<rparr>" 2 100 10000 1000 LoadNone False None
      example_env 7]
    WellMixedTank_init_shape_check [of "\<lparr>count_control_in = 1, count_control_out = 1, count_links = 1,
      control_in = [0], control_out = [1], links = [3]\<rparr>" 2 100 10000 1000 LoadNone False None
      example_env 7]
  by (simp add: WellMixedTank_init_def)

text \<open>
  The claim C6 as written fails: with the unknown mode foo, \<^verbatim>\<open>read\<close> and \<^verbatim>\<open>pull\<close>
  return without an exception and leave the loader as it was, and \<^verbatim>\<open>push\<close> adds the
  empty sample; in mode csv without a file, \<^verbatim>\<open>read\<close> raises \<open>TypeError\<close>.
\<close>

theorem LoadSampler_no_ConfigurationError_counterexample:
  "LoadSampler_read \<lparr>dirs = [], files = [], refused = []\<rparr> (LoadSampler_init 5 (LoadStr ''foo'') None)
     = Inr (LoadSampler_init 5 (LoadStr ''foo'') None)
   \<and> LoadSampler_pull (\<lambda>k. 0) (\<lambda>n k size'. []) (LoadSampler_init 5 (LoadStr ''foo'') None)
     = LoadSampler_init 5 (LoadStr ''foo'') None
   \<and> LoadSampler_push [] (LoadSampler_init 5 (LoadStr ''foo'') None) = []
   \<and> LoadSampler_read \<lparr>dirs = [], files = [], refused = []\<rparr> (LoadSampler_init 5 (LoadStr ''csv'') None)
     = Inl TypeError
   \<and> LoadSampler_read \<lparr>dirs = [], files = [], refused = []\<rparr> (LoadSampler_init 5 (LoadStr ''csv'') None)
     \<noteq> Inl ConfigurationError"
  by (simp add: LoadSampler_read_def LoadSampler_pull_def LoadSampler_push_def LoadSampler_init_def
      ListTank_add_def open_read_def)

lemma walk_errors:
  "walk fsys as = Some err \<Longrightarrow> err = NotADirectoryError \<or> err = FileNotFoundError"
  by (induction as) (auto split: if_splits)

lemma open_error_cases:
  assumes "open_error fsys p = Some err"
  shows "err = ValueError \<or> (\<exists>name. err = OSError name) \<or> err = NotADirectoryError
         \<or> err = FileNotFoundError \<or> err = IsADirectoryError"
  using assms walk_errors [of fsys "ancestors p"]
  by (auto simp: open_error_def split: if_splits option.splits)

lemma LoadSampler_read_not_ConfigurationError: "LoadSampler_read fsys ls \<noteq> Inl ConfigurationError"
  using open_error_cases [of fsys _ ConfigurationError]
  by (auto simp: LoadSampler_read_def open_read_def
      split: sum.splits option.splits file_content.splits)

text \<open>
  What \<^verbatim>\<open>open\<close> answers in the loader, on a file system with a directory, a readable
  file, a file that does not decode and a file that the process may not read.
\<close>

lemma open_read_examples:
  "open_read \<lparr>dirs = [''data''], files = [(''data/tank.csv'', Rows [[''A'', ''B'']]),
        (''data/raw.bin'', Undecodable), (''locked.csv'', Rows [])],
        refused = [(''locked.csv'', ''PermissionError'')]\<rparr> (Some path) =
     (if path = ''data/tank.csv'' then Inr [[''A'', ''B'']]
      else if path = ''data'' then Inl IsADirectoryError
      else if path = ''data/tank.csv/x'' then Inl NotADirectoryError
      else if path = ''data/raw.bin'' then Inl UnicodeDecodeError
      else if path = ''locked.csv'' then Inl (OSError ''PermissionError'')
      else if path = ''none/tank.csv'' then Inl FileNotFoundError
      else if path = [CHR 0x00] then Inl ValueError
      else open_read \<lparr>dirs = [''data''], files = [(''data/tank.csv'', Rows [[''A'', ''B'']]),
        (''data/raw.bin'', Undecodable), (''locked.csv'', Rows [])],
        refused = [(''locked.csv'', ''PermissionError'')]\<rparr> (Some path))"
  by (simp add: open_read_def open_error_def ancestors_def)

text \<open>
  C6, amended. For a mode that is a string other than csv, scc, int and RBN, the
  loader does not fail: \<^verbatim>\<open>read\<close> and \<^verbatim>\<open>pull\<close> raise nothing and leave the loader and
  its sample unchanged, and \<^verbatim>\<open>push\<close> adds that sample. In mode csv with no source
  given, \<^verbatim>\<open>read\<close> fails with \<open>TypeError\<close>. The loader never raises
  \<open>ConfigurationError\<close>.
\<close>

theorem LoadSampler_unknown_mode_and_missing_source:
  "(ls_load_type ls = LoadStr mode \<and> mode \<notin> {''csv'', ''scc'', ''int'', ''RBN''}
      \<longrightarrow> LoadSampler_read files' ls = Inr ls
          \<and> LoadSampler_pull draws watson' ls = ls
          \<and> LoadSampler_push tank ls = tank @ ls_sample ls)
   \<and> (ls_load_type ls = LoadStr ''csv'' \<and> ls_load_file ls = None
      \<longrightarrow> LoadSampler_read files' ls = Inl TypeError)
   \<and> LoadSampler_read files' ls \<noteq> Inl ConfigurationError"
proof -
  have "ls_load_type ls = LoadStr ''csv'' \<and> ls_load_file ls = None
      \<longrightarrow> LoadSampler_read files' ls = Inl TypeError"
    by (simp add: LoadSampler_read_def open_read_def)
  moreover have "ls_load_type ls = LoadStr mode \<and> mode \<notin> {''csv'', ''scc'', ''int'', ''RBN''}
      \<longrightarrow> LoadSampler_read files' ls = Inr ls
          \<and> LoadSampler_pull draws watson' ls = ls
          \<and> LoadSampler_push tank ls = tank @ ls_sample ls"
    by (auto simp: LoadSampler_read_def LoadSampler_pull_def LoadSampler_push_def ListTank_add_def)
  ultimately show ?thesis
    using LoadSampler_read_not_ConfigurationError [of files' ls] by blast
qed

theorem LoadSampler_unknown_mode_and_missing_source_witness:
  "LoadSampler_read \<lparr>dirs = [], files = [], refused = []\<rparr>
      \<lparr>ls_load_file = None, ls_load_type = LoadStr ''xyz'', ls_tank_size = 3, ls_sample = []\<rparr>
     = Inr \<lparr>ls_load_file = None, ls_load_type = LoadStr ''xyz'', ls_tank_size = 3, ls_sample = []\<rparr>
   \<and> LoadSampler_pull (\<lambda>k. 0) (\<lambda>n k size'. [])
      \<lparr>ls_load_file = None, ls_load_type = LoadStr ''xyz'', ls_tank_size = 3, ls_sample = []\<rparr>
     = \<lparr>ls_load_file = None, ls_load_type = LoadStr ''xyz'', ls_tank_size = 3, ls_sample = []\<rparr>
   \<and> LoadSampler_read \<lparr>dirs = [], files = [], refused = []\<rparr>
      \<lparr>ls_load_file = None, ls_load_type = LoadStr ''csv'', ls_tank_size = 3, ls_sample = []\<rparr>
     = Inl TypeError"
  using
    LoadSampler_unknown_mode_and_missing_source [of
      "\<lparr>ls_load_file = None, ls_load_type = LoadStr ''xyz'', ls_tank_size = 3, ls_sample = []\<rparr>"
      "''xyz''" "\<lparr>dirs = [], files = [], refused = []\<rparr>" "\<lambda>k. 0" "\<lambda>n k size'. []" "[]"]
    LoadSampler_unknown_mode_and_missing_source [of
      "\<lparr>ls_load_file = None, ls_load_type = LoadStr ''csv'', ls_tank_size = 3, ls_sample = []\<rparr>"
      "''xyz''" "\<lparr>dirs = [], files = [], refused = []\<rparr>" "\<lambda>k. 0" "\<lambda>n k size'. []" "[]"]
  by simp

subsection \<open>The export\<close>

declare find_file_path.simps [simp del]

lemma find_file_path_first:
  "\<exists>k. find_file_path fsys s = file_path_for k \<and> s \<le> k
       \<and> \<not> path_exists fsys (file_path_for k)
       \<and> (\<forall>j. s \<le> j \<and> j < k \<longrightarrow> path_exists fsys (file_path_for j))"
proof (induction fsys s rule: find_file_path.induct)
  case (1 fsys suffix)
  show ?case
  proof (cases "path_exists fsys (file_path_for suffix)")
    case False
    then have "find_file_path fsys suffix = file_path_for suffix"
      by (subst find_file_path.simps) simp
    with False show ?thesis by auto
  next
    case True
    then have eq: "find_file_path fsys suffix = find_file_path fsys (suffix + 1)"
      by (subst find_file_path.simps) simp
    from 1 True obtain k where k: "find_file_path fsys (suffix + 1) = file_path_for k"
      "suffix + 1 \<le> k" "\<not> path_exists fsys (file_path_for k)"
      "\<forall>j. suffix + 1 \<le> j \<and> j < k \<longrightarrow> path_exists fsys (file_path_for j)"
      by auto
    have "\<forall>j. suffix \<le> j \<and> j < k \<longrightarrow> path_exists fsys (file_path_for j)"
    proof (intro allI impI)
      fix j assume "suffix \<le> j \<and> j < k"
      then have "j = suffix \<or> (suffix + 1 \<le> j \<and> j < k)" by arith
      with True k(4) show "path_exists fsys (file_path_for j)" by auto
    qed
    with eq k show ?thesis by (intro exI [of _ k]) simp
  qed
qed

lemma str_nat_digits: "set (str_nat n) \<subseteq> set ''0123456789''"
proof (induction n rule: str_nat.induct)
  case (1 n)
  have d: "''0123456789'' ! m \<in> set ''0123456789''" if "m < 10" for m
    using that by (intro nth_mem) simp
  show ?case
  proof (cases "n < 10")
    case True
    then show ?thesis using d [of n] by (subst str_nat.simps) simp
  next
    case False
    with 1 have "set (str_nat (n div 10)) \<subseteq> set ''0123456789''" by simp
    moreover have "''0123456789'' ! (n mod 10) \<in> set ''0123456789''" by (rule d) simp
    ultimately show ?thesis using False by (subst str_nat.simps) simp
  qed
qed

lemma prefixes_before_slash_append:
  "CHR ''/'' \<notin> set xs
     \<Longrightarrow> prefixes_before_slash acc (xs @ ys) = prefixes_before_slash (acc @ xs) ys"
  by (induction xs arbitrary: acc) auto

lemma ancestors_file_path_for: "ancestors (file_path_for k) = [''Outputs'']"
proof (cases "k = 0")
  case True
  then show ?thesis by (simp add: file_path_for_eq ancestors_def)
next
  case False
  have ns: "CHR ''/'' \<notin> set (str_nat k)"
    using str_nat_digits [of k] by auto
  have "prefixes_before_slash [] (''Outputs/output_'' @ str_nat k @ ''.csv'')
      = [''Outputs''] @ prefixes_before_slash ''Outputs/output_'' (str_nat k @ ''.csv'')"
    by simp
  also have "prefixes_before_slash ''Outputs/output_'' (str_nat k @ ''.csv'')
      = prefixes_before_slash (''Outputs/output_'' @ str_nat k) ''.csv''"
    using ns by (rule prefixes_before_slash_append)
  also have "\<dots> = []" by simp
  finally show ?thesis using False by (simp add: file_path_for_eq ancestors_def)
qed

lemma file_path_for_plain:
  "CHR 0x00 \<notin> set (file_path_for k) \<and> file_path_for k \<noteq> []"
  using str_nat_digits [of k] by (auto simp: file_path_for_eq)

lemma open_error_file_path_for:
  assumes "''Outputs'' \<in> set (dirs fsys)" and "map_of (refused fsys) (file_path_for k) = None"
    and "file_path_for k \<notin> set (dirs fsys)"
  shows "open_error fsys (file_path_for k) = None"
  using assms file_path_for_plain [of k]
  by (simp add: open_error_def ancestors_file_path_for)

lemma results_to_csv_spares_files:
  assumes "''Outputs'' \<in> set (dirs fsys)"
    and "\<forall>k. map_of (refused fsys) (file_path_for k) = None"
  shows "\<exists>fsys' k. results_to_csv render fsys reactions = Inr (fsys', file_path_for k)
           \<and> \<not> path_exists fsys (file_path_for k)
           \<and> (\<forall>j < k. path_exists fsys (file_path_for j))
           \<and> map_of (files fsys') (file_path_for k) = Some (Rows (to_csv render reactions))
           \<and> (\<forall>q. q \<noteq> file_path_for k \<longrightarrow> map_of (files fsys') q = map_of (files fsys) q)
           \<and> (\<forall>q \<in> set (map fst (files fsys)). map_of (files fsys') q = map_of (files fsys) q)
           \<and> dirs fsys' = dirs fsys"
proof -
  from find_file_path_first [of fsys 0] obtain k where
    k: "find_file_path fsys 0 = file_path_for k" "\<not> path_exists fsys (file_path_for k)"
       "\<forall>j < k. path_exists fsys (file_path_for j)"
    by auto
  let ?p = "file_path_for k"
  let ?fs' = "fsys\<lparr>files := (?p, Rows (to_csv render reactions)) # filter (\<lambda>f. fst f \<noteq> ?p) (files fsys)\<rparr>"
  from k(2) have nd: "?p \<notin> set (dirs fsys)" by (simp add: path_exists_def)
  from assms nd have "open_error fsys ?p = None"
    by (intro open_error_file_path_for) simp_all
  then have run: "results_to_csv render fsys reactions = Inr (?fs', ?p)"
    using k(1) by (simp add: results_to_csv_def open_write_def Let_def)
  have other: "map_of (filter (\<lambda>f. fst f \<noteq> ?p) xs) q = map_of xs q" if "q \<noteq> ?p" for q xs
    using that by (induction xs) auto
  have notin: "?p \<notin> set (map fst (files fsys))"
    using k(2) by (simp add: path_exists_def)
  have "\<forall>q. q \<noteq> ?p \<longrightarrow> map_of (files ?fs') q = map_of (files fsys) q"
    using other by auto
  moreover from this notin
  have "\<forall>q \<in> set (map fst (files fsys)). map_of (files ?fs') q = map_of (files fsys) q"
    by (metis)
  moreover have "map_of (files ?fs') ?p = Some (Rows (to_csv render reactions))" by simp
  moreover have "dirs ?fs' = dirs fsys" by simp
  ultimately show ?thesis using run k(2,3) by blast
qed

lemma to_csv_shape:
  "hd (to_csv render df) = columns df \<and> length (tl (to_csv render df)) = length (rows df)
   \<and> (\<forall>r \<in> set (tl (to_csv render df)). length r = length (columns df))"
  by (auto simp: to_csv_def)

lemma str_nat_1: "str_nat (Suc 0) = ''1''"
  by (subst str_nat.simps) simp

lemma results_to_csv_call_with_argument:
  "results_to_csv_call render fsys reactions (a # as) = Inl TypeError"
  by (simp add: results_to_csv_call_def)

text \<open>
  C9. The path of the export is not chosen by the caller. The docstring of the method
  documents a parameter \<^verbatim>\<open>filename\<close>, the name of the file to write to, but the method
  takes none: a call that passes the path Outputs/mine.csv raises \<open>TypeError\<close> and
  writes nothing, and the call without argument writes to the first free variant of
  the fixed default path, here the variant with suffix 1, with the columns of the
  ledger as header and one row of cells for the one recorded reaction.
\<close>

theorem results_to_csv_path_not_caller_chosen:
  "results_to_csv_call render
     \<lparr>dirs = [''Outputs''], files = [(''Outputs/output.csv'', Rows [[''kept'']])], refused = []\<rparr>
     \<lparr>columns = ledger_columns, rows = [Map.empty]\<rparr>
     [PyStr ''Outputs/mine.csv'']
   = Inl TypeError
   \<and> results_to_csv_call render
     \<lparr>dirs = [''Outputs''], files = [(''Outputs/output.csv'', Rows [[''kept'']])], refused = []\<rparr>
     \<lparr>columns = ledger_columns, rows = [Map.empty]\<rparr>
     []
   = Inr (\<lparr>dirs = [''Outputs''],
          files = [(''Outputs/output_1.csv'',
                    Rows [[''id1'', ''id2'', ''obj1'', ''obj2'', ''Prods'', ''Open_Spikes'',
                           ''Bonded_Spikes'', ''Intensity'', ''Generation''],
                          replicate 9 (render None)]),
                   (''Outputs/output.csv'', Rows [[''kept'']])],
          refused = []\<rparr>,
          ''Outputs/output_1.csv'')"
proof -
  let ?fs = "\<lparr>dirs = [''Outputs''], files = [(''Outputs/output.csv'', Rows [[''kept'']])],
              refused = []\<rparr>"
  have p0: "path_exists ?fs (file_path_for 0)"
    by (simp add: path_exists_def file_path_for_eq)
  have p1: "\<not> path_exists ?fs (file_path_for (0 + 1))"
    by (simp add: path_exists_def file_path_for_eq str_nat_1)
  have "find_file_path ?fs 0 = find_file_path ?fs (0 + 1)"
    using p0 by (subst find_file_path.simps) simp
  also have "\<dots> = file_path_for (0 + 1)"
    using p1 by (subst find_file_path.simps) simp
  finally have f: "find_file_path ?fs 0 = ''Outputs/output_1.csv''"
    by (simp add: file_path_for_eq str_nat_1)
  have nine: "replicate 9 x = [x, x, x, x, x, x, x, x, x]" for x :: string
    by (simp add: numeral_eq_Suc)
  show ?thesis
    by (simp add: results_to_csv_call_def results_to_csv_def f open_write_def open_error_def
        ancestors_def to_csv_def ledger_columns_def nine Let_def)
qed

subsection \<open>Runs of the assembled graph\<close>

lemma trace_hd: "trace e G n c ! 0 = c"
  by (cases n) (auto split: sum.splits option.splits)

lemma trace_length: "0 < length (trace e G n c)"
  by (cases n) (auto split: sum.splits option.splits)

lemma trace_step:
  "Suc i < length (trace e G n c)
     \<Longrightarrow> step e G (trace e G n c ! i) = Inr (Some (trace e G n c ! Suc i))"
proof (induction n arbitrary: c i)
  case 0
  then show ?case by simp
next
  case (Suc n)
  show ?case
  proof (cases "step e G c")
    case (Inl err)
    with Suc.prems show ?thesis by simp
  next
    case (Inr r)
    show ?thesis
    proof (cases r)
      case None
      with Inr Suc.prems show ?thesis by simp
    next
      case (Some c')
      with Inr have tr: "trace e G (Suc n) c = c # trace e G n c'" by simp
      show ?thesis
      proof (cases i)
        case 0
        with tr Inr Some show ?thesis by (simp add: trace_hd)
      next
        case (Suc j)
        with tr Suc.prems have "Suc j < length (trace e G n c')" by simp
        then have "step e G (trace e G n c' ! j) = Inr (Some (trace e G n c' ! Suc j))"
          by (rule Suc.IH)
        with tr Suc show ?thesis by simp
      qed
    qed
  qed
qed

lemma step_Some:
  assumes "step e G c = Inr (Some c')"
  shows "\<exists>i. visit e G (visits c) (at_node c) (cont c) = Inr (cont c', i)
           \<and> (at_node c, at_node c') \<in> set (wmt_edges G)
           \<and> visits c' = Suc (visits c)"
proof -
  from assms obtain k i where v: "visit e G (visits c) (at_node c) (cont c) = Inr (k, i)"
    by (auto simp: step_def split: sum.splits)
  with assms obtain m ms where d: "drop i (successors (wmt_edges G) (at_node c)) = m # ms"
    and c': "c' = \<lparr>at_node = m, cont = k, visits = visits c + 1\<rparr>"
    by (auto simp: step_def split: list.splits)
  from d have "m \<in> set (drop i (successors (wmt_edges G) (at_node c)))" by simp
  then have "m \<in> set (successors (wmt_edges G) (at_node c))" by (rule in_set_dropD)
  then have "(at_node c, m) \<in> set (wmt_edges G)" by (auto simp: successors_def)
  with v c' show ?thesis by simp
qed

lemma init_Inr:
  assumes "WellMixedTank_init bondgraph size' reactions generations tank_size' load_type' log_node load_file' = Inr G"
  shows "wmt_edges G = stable_edges @ [(Osample, Bond), (Bond, Oreturn)]"
    and "wmt_start G = Sload"
    and "wmt_containers G =
           \<lparr>TTank = [], TNew = [], VTime = [0], VGen = [0], VBond = Map.empty,
            VReaction = \<lparr>columns = ledger_columns, rows = []\<rparr>, SComposite = []\<rparr>"
  using assms
  by (auto simp: WellMixedTank_init_def StackEnvironment_add_def DataFrameEnvironment_init_def
      split: if_splits sum.splits)

lemma trace_path:
  assumes "wmt_edges G = assembled_edges"
  shows "successively (\<lambda>a b. (a, b) \<in> set assembled_edges) (map at_node (trace e G n c))"
proof (induction n arbitrary: c)
  case 0
  show ?case by simp
next
  case (Suc n)
  show ?case
  proof (cases "step e G c")
    case (Inl err)
    then show ?thesis by simp
  next
    case (Inr r)
    show ?thesis
    proof (cases r)
      case None
      with Inr show ?thesis by simp
    next
      case (Some c')
      with Inr have tr: "trace e G (Suc n) c = c # trace e G n c'" by simp
      from Inr Some have "(at_node c, at_node c') \<in> set assembled_edges"
        using step_Some [of e G c c'] assms by auto
      moreover have "hd (map at_node (trace e G n c')) = at_node c'"
        using trace_hd [of e G n c'] trace_length [of e G n c']
        by (cases "trace e G n c'") auto
      moreover have "map at_node (trace e G n c') \<noteq> []"
        using trace_length [of e G n c'] by simp
      ultimately show ?thesis
        using Suc [of c'] tr
        by (cases "map at_node (trace e G n c')") (auto simp: successively_Cons)
    qed
  qed
qed

lemma edge_cases:
  "(a, b) \<in> set assembled_edges \<Longrightarrow>
     (a = Sload \<and> b = Otime) \<or> (a = Otime \<and> b = Oreset) \<or> (a = Oreset \<and> b = Ssample)
     \<or> (a = Ssample \<and> b = Osample) \<or> (a = Oreturn \<and> b = Sreturn) \<or> (a = Sreturn \<and> b = Ogen)
     \<or> (a = Ogen \<and> b = Dgen) \<or> (a = Dgen \<and> b = Ssample) \<or> (a = Dgen \<and> b = Sgeneration)
     \<or> (a = Sgeneration \<and> b = Olog) \<or> (a = Olog \<and> b = Otime) \<or> (a = Dgen \<and> b = Ssimulation)
     \<or> (a = Ssimulation \<and> b = Tterm) \<or> (a = Osample \<and> b = Bond) \<or> (a = Bond \<and> b = Oreturn)"
  by (simp add: assembled_edges_def stable_edges_def)

lemma resets_to_next_generation:
  "successively (\<lambda>a b. (a, b) \<in> set assembled_edges) (a # ys @ [Sgeneration])
     \<Longrightarrow> Sgeneration \<notin> set ys
     \<Longrightarrow> resets_ahead a = Some (count_list (a # ys) Oreset)"
proof (induction ys arbitrary: a)
  case Nil
  then have "(a, Sgeneration) \<in> set assembled_edges" by simp
  then have "a = Dgen" using edge_cases [of a Sgeneration] by auto
  then show ?case by simp
next
  case (Cons b ys)
  then have e: "(a, b) \<in> set assembled_edges"
    and p: "successively (\<lambda>a b. (a, b) \<in> set assembled_edges) (b # ys @ [Sgeneration])"
    and nb: "b \<noteq> Sgeneration" and ns: "Sgeneration \<notin> set ys"
    by (auto simp: successively_Cons)
  from p ns have ih: "resets_ahead b = Some (count_list (b # ys) Oreset)" by (rule Cons.IH)
  from edge_cases [OF e] nb ih show ?case by auto
qed


lemma visit_VGen:
  assumes "visit e G t n k = Inr (k', i)" and "VGen k = v # r"
  shows "VGen k' = (if n = Oreset then 0 # r else if n = Ogen then (v + 1) # r else v # r)"
  using assms
  by (cases n)
    (auto simp: ClockObserver_def ClockResetObserver_def BruteSampler_def
      split: sum.splits list.splits prod.splits if_splits)

lemma trace_VGen_nonempty:
  assumes "VGen (cont c) \<noteq> []" and "i < length (trace e G n c)"
  shows "VGen (cont (trace e G n c ! i)) \<noteq> []"
  using assms(2)
proof (induction i)
  case 0
  with assms(1) show ?case by (simp add: trace_hd)
next
  case (Suc i)
  then have ne: "VGen (cont (trace e G n c ! i)) \<noteq> []" by simp
  then obtain v r where vr: "VGen (cont (trace e G n c ! i)) = v # r"
    by (cases "VGen (cont (trace e G n c ! i))") auto
  from Suc.prems have "step e G (trace e G n c ! i) = Inr (Some (trace e G n c ! Suc i))"
    by (rule trace_step)
  then obtain j where "visit e G (visits (trace e G n c ! i)) (at_node (trace e G n c ! i))
      (cont (trace e G n c ! i)) = Inr (cont (trace e G n c ! Suc i), j)"
    using step_Some by blast
  from visit_VGen [OF this vr] show ?case by (simp split: if_splits)
qed

lemma trace_VGen_step:
  assumes "VGen (cont c) \<noteq> []" and "Suc i < length (trace e G n c)"
  shows "\<exists>v r. VGen (cont (trace e G n c ! i)) = v # r
           \<and> VGen (cont (trace e G n c ! Suc i)) =
               (if at_node (trace e G n c ! i) = Oreset then 0 # r
                else if at_node (trace e G n c ! i) = Ogen then (v + 1) # r else v # r)"
proof -
  from assms have "VGen (cont (trace e G n c ! i)) \<noteq> []"
    by (intro trace_VGen_nonempty) simp_all
  then obtain v r where vr: "VGen (cont (trace e G n c ! i)) = v # r"
    by (cases "VGen (cont (trace e G n c ! i))") auto
  from assms(2) have "step e G (trace e G n c ! i) = Inr (Some (trace e G n c ! Suc i))"
    by (rule trace_step)
  then obtain j where "visit e G (visits (trace e G n c ! i)) (at_node (trace e G n c ! i))
      (cont (trace e G n c ! i)) = Inr (cont (trace e G n c ! Suc i), j)"
    using step_Some by blast
  from visit_VGen [OF this vr] vr show ?thesis by blast
qed

lemma trace_VGen_mono:
  assumes ne: "VGen (cont c) \<noteq> []"
    and j: "j < length (trace e G n c)" and ij: "i \<le> j"
    and nr: "\<forall>k. i \<le> k \<and> k < j \<longrightarrow> at_node (trace e G n c ! k) \<noteq> Oreset"
  shows "\<exists>v w. index0 (VGen (cont (trace e G n c ! i))) = Inr v
           \<and> index0 (VGen (cont (trace e G n c ! j))) = Inr w \<and> v \<le> w"
  using j ij nr
proof (induction j)
  case 0
  then have "i = 0" by simp
  moreover from ne have "VGen (cont (trace e G n c ! 0)) \<noteq> []" by (simp add: trace_hd)
  ultimately show ?case by (cases "VGen (cont (trace e G n c ! 0))") auto
next
  case (Suc j)
  from trace_VGen_step [OF ne Suc.prems(1)] obtain v r where
    a: "VGen (cont (trace e G n c ! j)) = v # r"
    and b: "VGen (cont (trace e G n c ! Suc j)) =
               (if at_node (trace e G n c ! j) = Oreset then 0 # r
                else if at_node (trace e G n c ! j) = Ogen then (v + 1) # r else v # r)"
    by blast
  show ?case
  proof (cases "i = Suc j")
    case True
    with b show ?thesis by (auto split: if_splits)
  next
    case False
    with Suc.prems have le: "i \<le> j" and nj: "at_node (trace e G n c ! j) \<noteq> Oreset"
      and nr': "\<forall>k. i \<le> k \<and> k < j \<longrightarrow> at_node (trace e G n c ! k) \<noteq> Oreset"
      by auto
    from Suc.prems(1) have "j < length (trace e G n c)" by simp
    from Suc.IH [OF this le nr'] a obtain u where
      u: "index0 (VGen (cont (trace e G n c ! i))) = Inr u" "u \<le> v"
      by auto
    from b nj have "\<exists>w. index0 (VGen (cont (trace e G n c ! Suc j))) = Inr w \<and> v \<le> w"
      by (auto split: if_splits)
    with u show ?thesis by force
  qed
qed

lemma successively_suffix: "successively P (xs @ ys) \<Longrightarrow> successively P ys"
  by (simp add: successively_append_iff)

lemma successively_prefix: "successively P (xs @ ys) \<Longrightarrow> successively P xs"
  by (simp add: successively_append_iff)

lemma first_sample_path:
  assumes "successively (\<lambda>a b. (a, b) \<in> set assembled_edges) (Sload # xs @ [Ssample])"
    and "Ssample \<notin> set xs"
  shows "xs = [Otime, Oreset]"
proof (cases xs)
  case Nil
  with assms(1) show ?thesis using edge_cases [of Sload Ssample] by simp
next
  case (Cons b xs1)
  with assms(1) have "b = Otime" using edge_cases [of Sload b] by (auto simp: successively_Cons)
  show ?thesis
  proof (cases xs1)
    case Nil
    with Cons assms(1) \<open>b = Otime\<close> show ?thesis
      using edge_cases [of Otime Ssample] by (auto simp: successively_Cons)
  next
    case (Cons c xs2)
    with \<open>xs = b # xs1\<close> assms(1) \<open>b = Otime\<close> have "c = Oreset"
      using edge_cases [of Otime c] by (auto simp: successively_Cons)
    show ?thesis
    proof (cases xs2)
      case Nil
      with \<open>xs = b # xs1\<close> \<open>xs1 = c # xs2\<close> \<open>b = Otime\<close> \<open>c = Oreset\<close> show ?thesis by simp
    next
      case (Cons d xs3)
      with \<open>xs = b # xs1\<close> \<open>xs1 = c # xs2\<close> assms(1) \<open>c = Oreset\<close> have "d = Ssample"
        using edge_cases [of Oreset d] by (auto simp: successively_Cons)
      with Cons \<open>xs = b # xs1\<close> \<open>xs1 = c # xs2\<close> assms(2) show ?thesis by simp
    qed
  qed
qed

text \<open>
  C7. In every run of a graph that the constructor assembled: between two consecutive
  visits of the generation-advance sampler the reset node is visited exactly once, and
  before the first visit of the sampling node it is visited exactly once; a visit of
  the reset node leaves the per-generation counter at 0; and from one configuration to
  a later one with no visit of the reset node in between, the counter does not
  decrease.
\<close>

theorem per_generation_counter_resets:
  assumes init: "WellMixedTank_init bondgraph size' reactions generations tank_size' load_type'
                   log_node load_file' = Inr G"
  shows "(\<forall>xs ys zs. map at_node (trace e G n (initial G)) = xs @ Sgeneration # ys @ Sgeneration # zs
             \<and> Sgeneration \<notin> set ys \<longrightarrow> count_list ys Oreset = 1)
       \<and> (\<forall>xs zs. map at_node (trace e G n (initial G)) = xs @ Ssample # zs \<and> Ssample \<notin> set xs
             \<longrightarrow> count_list xs Oreset = 1)
       \<and> (\<forall>i. Suc i < length (trace e G n (initial G))
              \<and> at_node (trace e G n (initial G) ! i) = Oreset
             \<longrightarrow> index0 (VGen (cont (trace e G n (initial G) ! Suc i))) = Inr 0)
       \<and> (\<forall>i j. i \<le> j \<and> j < length (trace e G n (initial G))
              \<and> (\<forall>k. i \<le> k \<and> k < j \<longrightarrow> at_node (trace e G n (initial G) ! k) \<noteq> Oreset)
             \<longrightarrow> (\<exists>v w. index0 (VGen (cont (trace e G n (initial G) ! i))) = Inr v
                    \<and> index0 (VGen (cont (trace e G n (initial G) ! j))) = Inr w \<and> v \<le> w))"
proof -
  let ?tr = "trace e G n (initial G)"
  let ?E = "\<lambda>a b. (a, b) \<in> set assembled_edges"
  from init have edges: "wmt_edges G = assembled_edges"
    by (simp add: init_Inr(1) assembled_edges_def)
  from init have ne: "VGen (cont (initial G)) \<noteq> []"
    by (simp add: initial_def init_Inr(3))
  from init have start: "at_node (initial G) = Sload"
    by (simp add: initial_def init_Inr(2))
  have path: "successively ?E (map at_node ?tr)"
    using edges by (rule trace_path)
  have a: "count_list ys Oreset = 1"
    if "map at_node ?tr = xs @ Sgeneration # ys @ Sgeneration # zs \<and> Sgeneration \<notin> set ys"
    for xs ys zs
  proof -
    from that path have "successively ?E (xs @ (Sgeneration # ys @ [Sgeneration]) @ zs)" by simp
    then have "successively ?E ((Sgeneration # ys @ [Sgeneration]) @ zs)"
      by (rule successively_suffix)
    then have "successively ?E (Sgeneration # ys @ [Sgeneration])"
      by (rule successively_prefix)
    with that have "resets_ahead Sgeneration = Some (count_list (Sgeneration # ys) Oreset)"
      by (intro resets_to_next_generation) simp_all
    then show ?thesis by simp
  qed
  have b: "count_list xs Oreset = 1"
    if "map at_node ?tr = xs @ Ssample # zs \<and> Ssample \<notin> set xs" for xs zs
  proof -
    have "map at_node ?tr ! 0 = Sload"
      using trace_hd [of e G n "initial G"] trace_length [of e G n "initial G"] start
      by simp
    with that obtain xs' where xs: "xs = Sload # xs'"
      by (cases xs) auto
    from that path have "successively ?E ((xs @ [Ssample]) @ zs)" by simp
    then have "successively ?E (xs @ [Ssample])"
      by (rule successively_prefix)
    with xs that have "xs' = [Otime, Oreset]"
      by (intro first_sample_path) simp_all
    with xs show ?thesis by simp
  qed
  have c: "index0 (VGen (cont (?tr ! Suc i))) = Inr 0"
    if "Suc i < length ?tr \<and> at_node (?tr ! i) = Oreset" for i
    using trace_VGen_step [OF ne, of i e G n] that by auto
  have d: "\<exists>v w. index0 (VGen (cont (?tr ! i))) = Inr v
              \<and> index0 (VGen (cont (?tr ! j))) = Inr w \<and> v \<le> w"
    if "i \<le> j \<and> j < length ?tr \<and> (\<forall>k. i \<le> k \<and> k < j \<longrightarrow> at_node (?tr ! k) \<noteq> Oreset)" for i j
    using trace_VGen_mono [OF ne, of j e G n i] that by blast
  from a b c d show ?thesis by blast
qed

lemmas run_defs = WellMixedTank_init_def example_subgraph_def example_env_def initial_def step_def
   stable_edges_def successors_def LoadSampler_read_def LoadSampler_pull_def LoadSampler_init_def LoadSampler_push_def
   ListTank_add_def StackEnvironment_add_def DataFrameEnvironment_init_def ClockObserver_def ClockResetObserver_def
   SimpleSampler_def BruteSampler_def SampleObserver_process_def SampleObserver_read_def SampleObserver_push_def
   SampleObserver_pull_def ReturnObserver_process_def ReturnObserver_read_def ReturnObserver_push_def
   TimingsDecision_read_def TimingsDecision_process_def TimingsDecision_init_def DataFrameEnvironment_add_def
   DictionaryEnvironment_add_def DictionaryEnvironment_remove_def random_randint_def Let_def

lemma upt5: "[0..<5] = [0, 1, 2, 3, 4::nat]"
  by (simp add: upt_rec)

theorem per_generation_counter_resets_witness:
  "case WellMixedTank_init example_subgraph 2 1 3 5 (LoadStr ''int'') False None of
     Inl err \<Rightarrow> False
   | Inr G \<Rightarrow>
       map at_node (trace example_env G (Suc (Suc (Suc (Suc (Suc (Suc (Suc (Suc (Suc (Suc (Suc (Suc (Suc (Suc (Suc (Suc (Suc (Suc (Suc (Suc (Suc (0)))))))))))))))))))))) (initial G)) =
         [Sload, Otime, Oreset, Ssample, Osample, Bond, Oreturn, Sreturn, Ogen, Dgen,
          Sgeneration, Olog, Otime, Oreset, Ssample, Osample, Bond, Oreturn, Sreturn, Ogen, Dgen,
          Sgeneration]
       \<and> count_list [Olog, Otime, Oreset, Ssample, Osample, Bond, Oreturn, Sreturn, Ogen, Dgen] Oreset = 1
       \<and> count_list [Sload, Otime, Oreset] Oreset = 1
       \<and> index0 (VGen (cont (trace example_env G (Suc (Suc (Suc (Suc (Suc (Suc (Suc (Suc (Suc (Suc (Suc (Suc (Suc (Suc (Suc (Suc (Suc (Suc (Suc (Suc (Suc (0)))))))))))))))))))))) (initial G) ! Suc 2))) = Inr 0
       \<and> (\<exists>v w. index0 (VGen (cont (trace example_env G (Suc (Suc (Suc (Suc (Suc (Suc (Suc (Suc (Suc (Suc (Suc (Suc (Suc (Suc (Suc (Suc (Suc (Suc (Suc (Suc (Suc (0)))))))))))))))))))))) (initial G) ! 3))) = Inr v
              \<and> index0 (VGen (cont (trace example_env G (Suc (Suc (Suc (Suc (Suc (Suc (Suc (Suc (Suc (Suc (Suc (Suc (Suc (Suc (Suc (Suc (Suc (Suc (Suc (Suc (Suc (0)))))))))))))))))))))) (initial G) ! 9))) = Inr w \<and> v \<le> w)"
proof -
  define G where "G = projr (WellMixedTank_init example_subgraph 2 1 3 5 (LoadStr ''int'') False None)"
  have init: "WellMixedTank_init example_subgraph 2 1 3 5 (LoadStr ''int'') False None = Inr G"
    by (simp add: G_def WellMixedTank_init_def example_subgraph_def)
  define tr where "tr = trace example_env G (Suc (Suc (Suc (Suc (Suc (Suc (Suc (Suc (Suc (Suc (Suc (Suc (Suc (Suc (Suc (Suc (Suc (Suc (Suc (Suc (Suc (0)))))))))))))))))))))) (initial G)"
  have nodes: "map at_node tr =
         [Sload, Otime, Oreset, Ssample, Osample, Bond, Oreturn, Sreturn, Ogen, Dgen,
          Sgeneration, Olog, Otime, Oreset, Ssample, Osample, Bond, Oreturn, Sreturn, Ogen, Dgen,
          Sgeneration]"
    by (simp add: tr_def G_def run_defs numeral_2_eq_2 upt5 recorded_id_def)
  have "length (map at_node tr) = 22"
    by (simp only: nodes) simp
  then have len: "length tr = 22" by simp
  have nd: "at_node (tr ! i) = map at_node tr ! i" if "i < 22" for i
    using that len by simp
  note inst = per_generation_counter_resets [OF init, of example_env "Suc (Suc (Suc (Suc (Suc (Suc (Suc (Suc (Suc (Suc (Suc (Suc (Suc (Suc (Suc (Suc (Suc (Suc (Suc (Suc (Suc (0)))))))))))))))))))))", folded tr_def]
  from inst have a: "\<forall>xs ys zs. map at_node tr = xs @ Sgeneration # ys @ Sgeneration # zs
             \<and> Sgeneration \<notin> set ys \<longrightarrow> count_list ys Oreset = 1"
    and b: "\<forall>xs zs. map at_node tr = xs @ Ssample # zs \<and> Ssample \<notin> set xs
             \<longrightarrow> count_list xs Oreset = 1"
    and c: "\<forall>i. Suc i < length tr \<and> at_node (tr ! i) = Oreset
             \<longrightarrow> index0 (VGen (cont (tr ! Suc i))) = Inr 0"
    and d: "\<forall>i j. i \<le> j \<and> j < length tr
              \<and> (\<forall>k. i \<le> k \<and> k < j \<longrightarrow> at_node (tr ! k) \<noteq> Oreset)
             \<longrightarrow> (\<exists>v w. index0 (VGen (cont (tr ! i))) = Inr v
                    \<and> index0 (VGen (cont (tr ! j))) = Inr w \<and> v \<le> w)"
    by blast+
  have a': "count_list [Olog, Otime, Oreset, Ssample, Osample, Bond, Oreturn, Sreturn, Ogen, Dgen] Oreset = 1"
    using a [rule_format, of "[Sload, Otime, Oreset, Ssample, Osample, Bond, Oreturn, Sreturn, Ogen, Dgen]"
        "[Olog, Otime, Oreset, Ssample, Osample, Bond, Oreturn, Sreturn, Ogen, Dgen]" "[]"] nodes
    by simp
  have b': "count_list [Sload, Otime, Oreset] Oreset = 1"
    using b [rule_format, of "[Sload, Otime, Oreset]"
        "[Osample, Bond, Oreturn, Sreturn, Ogen, Dgen,
          Sgeneration, Olog, Otime, Oreset, Ssample, Osample, Bond, Oreturn, Sreturn, Ogen, Dgen,
          Sgeneration]"] nodes
    by simp
  have "at_node (tr ! 2) = Oreset" using nd [of 2] nodes by simp
  then have c': "index0 (VGen (cont (tr ! Suc 2))) = Inr 0"
    using c [rule_format, of 2] len by simp
  have "\<forall>k. 3 \<le> k \<and> k < 9 \<longrightarrow> at_node (tr ! k) \<noteq> Oreset"
  proof (intro allI impI)
    fix k :: nat assume "3 \<le> k \<and> k < 9"
    then have "k = 3 \<or> k = 4 \<or> k = 5 \<or> k = 6 \<or> k = 7 \<or> k = 8" by arith
    then show "at_node (tr ! k) \<noteq> Oreset"
      using nd [of k] nodes by auto
  qed
  then have d': "\<exists>v w. index0 (VGen (cont (tr ! 3))) = Inr v
              \<and> index0 (VGen (cont (tr ! 9))) = Inr w \<and> v \<le> w"
    using d [rule_format, of 3 9] len by simp
  from nodes a' b' c' d' show ?thesis
    unfolding init tr_def by simp
qed

subsection \<open>The ledger and the population\<close>

lemma visit_VReaction:
  assumes "visit e G t n k = Inr (k', i)"
  shows "columns (VReaction k') = columns (VReaction k)
         \<and> (if n = Oreturn then \<exists>row. rows (VReaction k') = rows (VReaction k) @ [row]
            else rows (VReaction k') = rows (VReaction k))"
  using assms
  by (cases n)
    (auto simp: ReturnObserver_push_def DataFrameEnvironment_add_def BruteSampler_def
      split: sum.splits prod.splits if_splits)

lemma trace_VReaction_step:
  assumes "Suc i < length (trace e G n c)"
  shows "columns (VReaction (cont (trace e G n c ! Suc i))) = columns (VReaction (cont (trace e G n c ! i)))
         \<and> (if at_node (trace e G n c ! i) = Oreturn
            then \<exists>row. rows (VReaction (cont (trace e G n c ! Suc i))) =
                         rows (VReaction (cont (trace e G n c ! i))) @ [row]
            else rows (VReaction (cont (trace e G n c ! Suc i))) =
                         rows (VReaction (cont (trace e G n c ! i))))"
proof -
  from assms have "step e G (trace e G n c ! i) = Inr (Some (trace e G n c ! Suc i))"
    by (rule trace_step)
  then obtain j where "visit e G (visits (trace e G n c ! i)) (at_node (trace e G n c ! i))
      (cont (trace e G n c ! i)) = Inr (cont (trace e G n c ! Suc i), j)"
    using step_Some by blast
  then show ?thesis by (rule visit_VReaction)
qed

lemma trace_VReaction_columns:
  assumes "i < length (trace e G n c)"
  shows "columns (VReaction (cont (trace e G n c ! i))) = columns (VReaction (cont c))"
  using assms
proof (induction i)
  case 0
  show ?case by (simp add: trace_hd)
next
  case (Suc i)
  then show ?case using trace_VReaction_step [of i e G n c] by simp
qed

lemma take_length_le: "take (length ys) xs = ys \<Longrightarrow> length ys \<le> length xs"
proof -
  assume h: "take (length ys) xs = ys"
  have "length (take (length ys) xs) = length ys" by (simp only: h)
  then show ?thesis by simp
qed

lemma trace_VReaction_rows:
  assumes "j < length (trace e G n c)" and "i \<le> j"
  shows "take (length (rows (VReaction (cont (trace e G n c ! i)))))
           (rows (VReaction (cont (trace e G n c ! j))))
         = rows (VReaction (cont (trace e G n c ! i)))"
  using assms
proof (induction j)
  case 0
  then show ?case by simp
next
  case (Suc j)
  show ?case
  proof (cases "i = Suc j")
    case True
    then show ?thesis by simp
  next
    case False
    with Suc.prems have "i \<le> j" and "j < length (trace e G n c)" by simp_all
    with Suc.IH have ih: "take (length (rows (VReaction (cont (trace e G n c ! i)))))
           (rows (VReaction (cont (trace e G n c ! j))))
         = rows (VReaction (cont (trace e G n c ! i)))" by simp
    then have le: "length (rows (VReaction (cont (trace e G n c ! i))))
        \<le> length (rows (VReaction (cont (trace e G n c ! j))))"
      by (rule take_length_le)
    from trace_VReaction_step [OF Suc.prems(1)]
    have "\<exists>ext. rows (VReaction (cont (trace e G n c ! Suc j))) =
                  rows (VReaction (cont (trace e G n c ! j))) @ ext"
      by (auto split: if_splits)
    then obtain ext where "rows (VReaction (cont (trace e G n c ! Suc j))) =
                  rows (VReaction (cont (trace e G n c ! j))) @ ext" ..
    with ih le show ?thesis by simp
  qed
qed

text \<open>
  C3. For every graph that the constructor assembles, whatever the kind of particle
  loaded, the columns of the reaction ledger are id1, id2, obj1, obj2, Prods,
  Open_Spikes, Bonded_Spikes, Intensity, Generation, in this order, at the start and
  at every configuration of every run. Every step of a run leaves the rows as they
  were or adds one row at the end, so the rows at any configuration are an initial
  segment of the rows at every later one; the push of the post-reaction observer is
  the step that adds the row.
\<close>

theorem ledger_schema_append_only:
  assumes init: "WellMixedTank_init bondgraph size' reactions generations tank_size' load_type'
                   log_node load_file' = Inr G"
  shows "columns (VReaction (wmt_containers G)) =
           [''id1'', ''id2'', ''obj1'', ''obj2'', ''Prods'', ''Open_Spikes'', ''Bonded_Spikes'',
            ''Intensity'', ''Generation'']
       \<and> (\<forall>i. i < length (trace e G n (initial G)) \<longrightarrow>
             columns (VReaction (cont (trace e G n (initial G) ! i))) =
               [''id1'', ''id2'', ''obj1'', ''obj2'', ''Prods'', ''Open_Spikes'', ''Bonded_Spikes'',
                ''Intensity'', ''Generation''])
       \<and> (\<forall>i. Suc i < length (trace e G n (initial G)) \<longrightarrow>
             rows (VReaction (cont (trace e G n (initial G) ! Suc i))) =
               rows (VReaction (cont (trace e G n (initial G) ! i)))
             \<or> (\<exists>row. rows (VReaction (cont (trace e G n (initial G) ! Suc i))) =
                   rows (VReaction (cont (trace e G n (initial G) ! i))) @ [row]))
       \<and> (\<forall>i j. i \<le> j \<and> j < length (trace e G n (initial G)) \<longrightarrow>
             take (length (rows (VReaction (cont (trace e G n (initial G) ! i)))))
               (rows (VReaction (cont (trace e G n (initial G) ! j))))
             = rows (VReaction (cont (trace e G n (initial G) ! i))))
       \<and> columns (ReturnObserver_push ledger ro) = columns ledger
       \<and> rows (ReturnObserver_push ledger ro) = rows ledger @ [ro_dict ro]"
proof -
  let ?tr = "trace e G n (initial G)"
  from init have cols: "columns (VReaction (wmt_containers G)) =
           [''id1'', ''id2'', ''obj1'', ''obj2'', ''Prods'', ''Open_Spikes'', ''Bonded_Spikes'',
            ''Intensity'', ''Generation'']"
    by (simp add: init_Inr(3) ledger_columns_def)
  then have "columns (VReaction (cont (initial G))) =
           [''id1'', ''id2'', ''obj1'', ''obj2'', ''Prods'', ''Open_Spikes'', ''Bonded_Spikes'',
            ''Intensity'', ''Generation'']"
    by (simp add: initial_def)
  then have a: "\<forall>i. i < length ?tr \<longrightarrow> columns (VReaction (cont (?tr ! i))) =
               [''id1'', ''id2'', ''obj1'', ''obj2'', ''Prods'', ''Open_Spikes'', ''Bonded_Spikes'',
                ''Intensity'', ''Generation'']"
    using trace_VReaction_columns [of _ e G n "initial G"] by simp
  have b: "\<forall>i. Suc i < length ?tr \<longrightarrow>
             rows (VReaction (cont (?tr ! Suc i))) = rows (VReaction (cont (?tr ! i)))
             \<or> (\<exists>row. rows (VReaction (cont (?tr ! Suc i))) = rows (VReaction (cont (?tr ! i))) @ [row])"
  proof (intro allI impI)
    fix i assume "Suc i < length ?tr"
    from trace_VReaction_step [OF this]
    show "rows (VReaction (cont (?tr ! Suc i))) = rows (VReaction (cont (?tr ! i)))
             \<or> (\<exists>row. rows (VReaction (cont (?tr ! Suc i))) = rows (VReaction (cont (?tr ! i))) @ [row])"
      by (auto split: if_splits)
  qed
  have c: "\<forall>i j. i \<le> j \<and> j < length ?tr \<longrightarrow>
             take (length (rows (VReaction (cont (?tr ! i))))) (rows (VReaction (cont (?tr ! j))))
             = rows (VReaction (cont (?tr ! i)))"
    using trace_VReaction_rows [of _ e G n "initial G"] by blast
  have d: "columns (ReturnObserver_push ledger ro) = columns ledger
       \<and> rows (ReturnObserver_push ledger ro) = rows ledger @ [ro_dict ro]"
    by (simp add: ReturnObserver_push_def DataFrameEnvironment_add_def)
  from cols a b c d show ?thesis by blast
qed


theorem ledger_schema_append_only_witness:
  "case WellMixedTank_init example_subgraph 2 1 3 5 (LoadStr ''int'') False None of
     Inl err \<Rightarrow> False
   | Inr G \<Rightarrow>
       columns (VReaction (wmt_containers G)) =
           [''id1'', ''id2'', ''obj1'', ''obj2'', ''Prods'', ''Open_Spikes'', ''Bonded_Spikes'',
            ''Intensity'', ''Generation'']
       \<and> map at_node (trace example_env G (Suc (Suc (Suc (Suc (Suc (Suc (Suc (0)))))))) (initial G)) =
           [Sload, Otime, Oreset, Ssample, Osample, Bond, Oreturn, Sreturn]
       \<and> columns (VReaction (cont (trace example_env G (Suc (Suc (Suc (Suc (Suc (Suc (Suc (0)))))))) (initial G) ! 7))) =
           [''id1'', ''id2'', ''obj1'', ''obj2'', ''Prods'', ''Open_Spikes'', ''Bonded_Spikes'',
            ''Intensity'', ''Generation'']
       \<and> (rows (VReaction (cont (trace example_env G (Suc (Suc (Suc (Suc (Suc (Suc (Suc (0)))))))) (initial G) ! Suc 6))) =
            rows (VReaction (cont (trace example_env G (Suc (Suc (Suc (Suc (Suc (Suc (Suc (0)))))))) (initial G) ! 6)))
          \<or> (\<exists>row. rows (VReaction (cont (trace example_env G (Suc (Suc (Suc (Suc (Suc (Suc (Suc (0)))))))) (initial G) ! Suc 6))) =
                rows (VReaction (cont (trace example_env G (Suc (Suc (Suc (Suc (Suc (Suc (Suc (0)))))))) (initial G) ! 6))) @ [row]))
       \<and> take (length (rows (VReaction (cont (trace example_env G (Suc (Suc (Suc (Suc (Suc (Suc (Suc (0)))))))) (initial G) ! 2)))))
            (rows (VReaction (cont (trace example_env G (Suc (Suc (Suc (Suc (Suc (Suc (Suc (0)))))))) (initial G) ! 7))))
          = rows (VReaction (cont (trace example_env G (Suc (Suc (Suc (Suc (Suc (Suc (Suc (0)))))))) (initial G) ! 2)))"
proof -
  define G where "G = projr (WellMixedTank_init example_subgraph 2 1 3 5 (LoadStr ''int'') False None)"
  have init: "WellMixedTank_init example_subgraph 2 1 3 5 (LoadStr ''int'') False None = Inr G"
    by (simp add: G_def WellMixedTank_init_def example_subgraph_def)
  define tr where "tr = trace example_env G (Suc (Suc (Suc (Suc (Suc (Suc (Suc (0)))))))) (initial G)"
  have nodes: "map at_node tr = [Sload, Otime, Oreset, Ssample, Osample, Bond, Oreturn, Sreturn]"
    by (simp add: tr_def G_def run_defs numeral_2_eq_2 upt5 recorded_id_def)
  have "length (map at_node tr) = 8"
    by (simp only: nodes) simp
  then have len: "length tr = 8" by simp
  note inst = ledger_schema_append_only [OF init, of example_env "Suc (Suc (Suc (Suc (Suc (Suc (Suc (0)))))))", folded tr_def]
  from inst have a: "columns (VReaction (wmt_containers G)) =
           [''id1'', ''id2'', ''obj1'', ''obj2'', ''Prods'', ''Open_Spikes'', ''Bonded_Spikes'',
            ''Intensity'', ''Generation'']"
    and b: "\<forall>i. i < length tr \<longrightarrow> columns (VReaction (cont (tr ! i))) =
               [''id1'', ''id2'', ''obj1'', ''obj2'', ''Prods'', ''Open_Spikes'', ''Bonded_Spikes'',
                ''Intensity'', ''Generation'']"
    and c: "\<forall>i. Suc i < length tr \<longrightarrow>
             rows (VReaction (cont (tr ! Suc i))) = rows (VReaction (cont (tr ! i)))
             \<or> (\<exists>row. rows (VReaction (cont (tr ! Suc i))) = rows (VReaction (cont (tr ! i))) @ [row])"
    and d: "\<forall>i j. i \<le> j \<and> j < length tr \<longrightarrow>
             take (length (rows (VReaction (cont (tr ! i))))) (rows (VReaction (cont (tr ! j))))
             = rows (VReaction (cont (tr ! i)))"
    by blast+
  from b len have b': "columns (VReaction (cont (tr ! 7))) =
               [''id1'', ''id2'', ''obj1'', ''obj2'', ''Prods'', ''Open_Spikes'', ''Bonded_Spikes'',
                ''Intensity'', ''Generation'']"
    by simp
  from c [rule_format, of 6] len
  have c': "rows (VReaction (cont (tr ! Suc 6))) = rows (VReaction (cont (tr ! 6)))
             \<or> (\<exists>row. rows (VReaction (cont (tr ! Suc 6))) = rows (VReaction (cont (tr ! 6))) @ [row])"
    by simp
  from d [rule_format, of 2 7] len
  have d': "take (length (rows (VReaction (cont (tr ! 2))))) (rows (VReaction (cont (tr ! 7))))
             = rows (VReaction (cont (tr ! 2)))"
    by simp
  from a nodes b' c' d' have "columns (VReaction (wmt_containers G)) =
           [''id1'', ''id2'', ''obj1'', ''obj2'', ''Prods'', ''Open_Spikes'', ''Bonded_Spikes'',
            ''Intensity'', ''Generation'']
       \<and> map at_node tr = [Sload, Otime, Oreset, Ssample, Osample, Bond, Oreturn, Sreturn]
       \<and> columns (VReaction (cont (tr ! 7))) =
           [''id1'', ''id2'', ''obj1'', ''obj2'', ''Prods'', ''Open_Spikes'', ''Bonded_Spikes'',
            ''Intensity'', ''Generation'']
       \<and> (rows (VReaction (cont (tr ! Suc 6))) = rows (VReaction (cont (tr ! 6)))
          \<or> (\<exists>row. rows (VReaction (cont (tr ! Suc 6))) = rows (VReaction (cont (tr ! 6))) @ [row]))
       \<and> take (length (rows (VReaction (cont (tr ! 2))))) (rows (VReaction (cont (tr ! 7))))
          = rows (VReaction (cont (tr ! 2)))"
    by blast
  then show ?thesis
    unfolding init sum.case tr_def .
qed








end
